theory Spec2Isabelle
  imports Main "HOL-Library.Sublist"
begin

section \<open>Strings and the regular expressions of the tag detection\<close>

text \<open>
  A JavaScript string is modelled as a \<^typ>\<open>string\<close>: one \<^typ>\<open>char\<close> per code unit, for
  code units below 256. The character classes below are the ECMAScript ones restricted to
  that range: \<^verbatim>\<open>.\<close> matches everything but a line terminator (LF, CR), \<^verbatim>\<open>\s\<close> matches
  TAB, LF, VT, FF, CR, SPACE and NBSP, and \<^verbatim>\<open>trim()\<close> strips exactly the \<^verbatim>\<open>\s\<close> characters.
\<close>

definition line_terminator :: "char \<Rightarrow> bool" where
  "line_terminator c = (c = CHR 0x0A \<or> c = CHR 0x0D)"

definition white_space :: "char \<Rightarrow> bool" where
  "white_space c =
     (c = CHR 0x09 \<or> c = CHR 0x0A \<or> c = CHR 0x0B \<or> c = CHR 0x0C \<or> c = CHR 0x0D
      \<or> c = CHR 0x20 \<or> c = CHR 0xA0)"

definition trim :: "string \<Rightarrow> string" where
  "trim s = rev (dropWhile white_space (rev (dropWhile white_space s)))"

text \<open>
  Case-insensitive matching (flag \<^verbatim>\<open>i\<close>, no flag \<^verbatim>\<open>u\<close>) compares the upper-case forms
  of the pattern character and the input character. All pattern characters of this program
  are ASCII, and ECMAScript's canonicalisation never maps a code unit above 127 to one
  below 128, so only the ASCII letters change.
\<close>

definition ascii_upper :: "char \<Rightarrow> char" where
  "ascii_upper c =
     (case map_of (zip ''abcdefghijklmnopqrstuvwxyz'' ''ABCDEFGHIJKLMNOPQRSTUVWXYZ'') c of
        Some u \<Rightarrow> u
      | None \<Rightarrow> c)"

definition canonicalize :: "bool \<Rightarrow> char \<Rightarrow> char" where
  "canonicalize ignoreCase c = (if ignoreCase then ascii_upper c else c)"

text \<open>
  The patterns of \<^verbatim>\<open>handler.ts\<close> are sequences of three kinds of atoms: literal text,
  the lazy capture group \<^verbatim>\<open>(.*?)\<close> and the greedy \<^verbatim>\<open>\s+\<close>. No pattern has more than one
  group.
\<close>

datatype atom = Lit string | LazyGroup | WsPlus

text \<open>Matching literal text at the current position; the result is the rest of the input.\<close>

fun strip_literal :: "bool \<Rightarrow> string \<Rightarrow> string \<Rightarrow> string option" where
  "strip_literal ic [] s = Some s"
| "strip_literal ic (p # ps) [] = None"
| "strip_literal ic (p # ps) (c # cs) =
     (if canonicalize ic p = canonicalize ic c then strip_literal ic ps cs else None)"

text \<open>
  The backtracking matcher, anchored at the current position. \<open>None\<close> is failure;
  \<open>Some g\<close> is a match whose element \<^verbatim>\<open>[1]\<close> is \<open>g\<close> (\<open>None\<close> for \<^verbatim>\<open>undefined\<close>, when the
  pattern has no group). The lazy group first tries the rest of the pattern and takes one
  more character only when that fails; the greedy \<^verbatim>\<open>\s+\<close> first tries to take one more
  white-space character and gives it back when the rest fails.
\<close>

fun extend_group :: "char \<Rightarrow> string option \<Rightarrow> string option" where
  "extend_group c None = Some [c]"
| "extend_group c (Some g) = Some (c # g)"

fun matcher :: "bool \<Rightarrow> atom list \<Rightarrow> string \<Rightarrow> string option option" where
  "matcher ic [] s = Some None"
| "matcher ic (Lit l # ps) s =
     (case strip_literal ic l s of
        None \<Rightarrow> None
      | Some rest \<Rightarrow> matcher ic ps rest)"
| "matcher ic (LazyGroup # ps) s =
     (case matcher ic ps s of
        Some _ \<Rightarrow> Some (Some [])
      | None \<Rightarrow>
          (case s of
             [] \<Rightarrow> None
           | c # cs \<Rightarrow>
               if line_terminator c then None
               else map_option (extend_group c) (matcher ic (LazyGroup # ps) cs)))"
| "matcher ic (WsPlus # ps) s =
     (case s of
        [] \<Rightarrow> None
      | c # cs \<Rightarrow>
          if white_space c then
            (case matcher ic (WsPlus # ps) cs of
               Some g \<Rightarrow> Some g
             | None \<Rightarrow> matcher ic ps cs)
          else None)"

text \<open>
  \<^verbatim>\<open>String.prototype.match\<close> with a regular expression without flag \<^verbatim>\<open>g\<close>: the match at the
  leftmost start position, or \<^verbatim>\<open>null\<close>.
\<close>

fun regexp_match :: "bool \<Rightarrow> atom list \<Rightarrow> string \<Rightarrow> string option option" where
  "regexp_match ic pat [] = matcher ic pat []"
| "regexp_match ic pat (c # cs) =
     (case matcher ic pat (c # cs) of
        Some g \<Rightarrow> Some g
      | None \<Rightarrow> regexp_match ic pat cs)"

text \<open>The pattern \<^verbatim>\<open>/<NAME>(.*?)<\/NAME>/\<close>.\<close>

definition tag_pattern :: "string \<Rightarrow> atom list" where
  "tag_pattern name = [Lit (''<'' @ name @ ''>''), LazyGroup, Lit (''</'' @ name @ ''>'')]"

text \<open>The pattern \<^verbatim>\<open>/<SEARCH>deep\s+(.*?)<\/SEARCH>/i\<close>.\<close>

definition deep_cue_pattern :: "atom list" where
  "deep_cue_pattern = [Lit ''<SEARCH>deep'', WsPlus, LazyGroup, Lit ''</SEARCH>'']"

text \<open>
  Element \<^verbatim>\<open>[1]\<close> of a match, read as a string. Every pattern it is applied to has a
  group, which always takes part in the match, so the first case is never reached; it
  stands for \<^verbatim>\<open>undefined\<close>.
\<close>

fun group1 :: "string option \<Rightarrow> string" where
  "group1 None = ''undefined''"
| "group1 (Some g) = g"

section \<open>The autonomous agent (\<^verbatim>\<open>src/agents/autonomous/handler.ts\<close>)\<close>

text \<open>
  Modelled from the spec: the type \<^verbatim>\<open>RouterAction\<close> is declared in
  \<^verbatim>\<open>services/semanticRouter\<close>, which is not part of the sources at hand; the spec gives
  the closed enumeration of action kinds, and the \<^verbatim>\<open>switch\<close> of the handler has one case
  for each of them.
\<close>

datatype action = SIMPLE | SEARCH | DEEP_SEARCH | THINK | IMAGE | PROJECT | CANVAS | STUDY

text \<open>
  Tag detection, lines 281 to 325 of the handler. The seven matches are computed first
  (\<^verbatim>\<open>a || b\<close> takes \<open>b\<close> when \<open>a\<close> is \<^verbatim>\<open>null\<close>).
\<close>

definition or_else :: "'a option \<Rightarrow> 'a option \<Rightarrow> 'a option" where
  "or_else a b = (case a of Some x \<Rightarrow> Some x | None \<Rightarrow> b)"

definition searchMatch :: "string \<Rightarrow> string option option" where
  "searchMatch generatedThisLoop = regexp_match False (tag_pattern ''SEARCH'') generatedThisLoop"

definition deepMatch :: "string \<Rightarrow> string option option" where
  "deepMatch generatedThisLoop =
     or_else (regexp_match False (tag_pattern ''DEEP'') generatedThisLoop)
             (regexp_match True deep_cue_pattern generatedThisLoop)"

definition thinkMatch :: "string \<Rightarrow> string option option" where
  "thinkMatch generatedThisLoop =
     or_else (regexp_match False (tag_pattern ''THINK'') generatedThisLoop)
             (regexp_match False [Lit ''<THINK>''] generatedThisLoop)"

definition imageMatch :: "string \<Rightarrow> string option option" where
  "imageMatch generatedThisLoop = regexp_match False (tag_pattern ''IMAGE'') generatedThisLoop"

definition projectMatch :: "string \<Rightarrow> string option option" where
  "projectMatch generatedThisLoop = regexp_match False (tag_pattern ''PROJECT'') generatedThisLoop"

definition canvasMatch :: "string \<Rightarrow> string option option" where
  "canvasMatch generatedThisLoop = regexp_match False (tag_pattern ''CANVAS'') generatedThisLoop"

definition studyMatch :: "string \<Rightarrow> string option option" where
  "studyMatch generatedThisLoop = regexp_match False (tag_pattern ''STUDY'') generatedThisLoop"

text \<open>
  The matches are then tested in the fixed order deep, search, think, image, project,
  canvas, study. The result is the new \<^verbatim>\<open>currentAction\<close> and \<^verbatim>\<open>currentPrompt\<close>, or \<open>None\<close>
  when no tag is found. \<open>prompt\<close> is the original prompt of the turn; the reasoning marker
  falls back to it when its element \<^verbatim>\<open>[1]\<close> is \<^verbatim>\<open>undefined\<close> or empty.
\<close>

definition tag_detection :: "string \<Rightarrow> string \<Rightarrow> (action \<times> string) option" where
  "tag_detection prompt generatedThisLoop =
     (case deepMatch generatedThisLoop of Some g \<Rightarrow> Some (DEEP_SEARCH, group1 g) | None \<Rightarrow>
     (case searchMatch generatedThisLoop of Some g \<Rightarrow> Some (SEARCH, group1 g) | None \<Rightarrow>
     (case thinkMatch generatedThisLoop of
        Some g \<Rightarrow>
          Some (THINK, case g of
                         Some p \<Rightarrow> if p \<noteq> [] then trim p else prompt
                       | None \<Rightarrow> prompt)
      | None \<Rightarrow>
     (case imageMatch generatedThisLoop of Some g \<Rightarrow> Some (IMAGE, group1 g) | None \<Rightarrow>
     (case projectMatch generatedThisLoop of Some g \<Rightarrow> Some (PROJECT, group1 g) | None \<Rightarrow>
     (case canvasMatch generatedThisLoop of Some g \<Rightarrow> Some (CANVAS, group1 g) | None \<Rightarrow>
     (case studyMatch generatedThisLoop of Some g \<Rightarrow> Some (STUDY, group1 g) | None \<Rightarrow> None)))))))"

subsection \<open>Data of one turn\<close>

text \<open>
  A thrown value: an \<^verbatim>\<open>Error\<close> object with its message, or any other value (the image
  executor tells them apart with \<^verbatim>\<open>instanceof Error\<close>).
\<close>

datatype js_error = JsError string | JsOther string

text \<open>The message of an \<^verbatim>\<open>Error\<close>; any other thrown value is taken as its own text.\<close>

fun error_text :: "js_error \<Rightarrow> string" where
  "error_text (JsError m) = m"
| "error_text (JsOther v) = v"

datatype sender = User | Ai

text \<open>The side-channel data that is spread into every result message.\<close>

record metadata =
  groundingMetadata :: "string list option"
  memoryToCreate :: "(string \<times> string \<times> string) list option"

text \<open>
  A message without \<^verbatim>\<open>id\<close> and \<^verbatim>\<open>created_at\<close>, as an \<^verbatim>\<open>AgentExecutionResult\<close> carries it
  and as \<^verbatim>\<open>addMessage\<close> takes it. The field \<^verbatim>\<open>text\<close> is called \<open>msg_text\<close> here; an absent
  optional field is \<open>None\<close>.
\<close>

record message_content =
  project_id :: string
  chat_id :: string
  sender :: sender
  msg_text :: string
  image_base64 :: "string option"
  imageStatus :: "string option"
  msg_metadata :: metadata
  user_id :: "string option"
  plan :: "string option"

text \<open>One chunk of a response stream: its text and the grounding chunks of its first candidate.\<close>

record chunk =
  chunk_text :: "string option"
  groundingChunks :: "string list option"

text \<open>
  A response stream is finite: the chunks it delivers, then possibly a failure. A request
  that is rejected at once is a stream that fails before its first chunk.
\<close>

type_synonym stream = "chunk list \<times> js_error option"

record routing =
  route_action :: action
  parameters_prompt :: "string option"

text \<open>
  The external collaborators of one turn, as the values they answer with. The generation
  backend is asked with a request built from the action and the current prompt (history,
  memory and files are fixed during a turn). \<open>getUserFriendlyError\<close> is the function of
  \<^verbatim>\<open>agents/errorUtils\<close>, which is not part of the sources at hand. The research service
  (\<^verbatim>\<open>services/researchService.ts\<close>, over a mock web search) is taken at its interface: the
  progress messages it reports, then its answer and sources, or a failure.
\<close>

record env =
  route :: "string \<Rightarrow> nat \<Rightarrow> js_error + routing"
  getContext :: "js_error + string"
  generateContentStream :: "action \<Rightarrow> string \<Rightarrow> stream"
  generateContent :: "string \<Rightarrow> js_error + string"
  deepResearch :: "string \<Rightarrow> string list \<times> (js_error + string \<times> string list)"
  incrementThinkingCount :: "js_error option"
  generateImage :: "string \<Rightarrow> js_error + string"
  readAsDataURL :: "string \<Rightarrow> js_error + string"
  getUserFriendlyError :: "js_error \<Rightarrow> string"

text \<open>The part of \<^verbatim>\<open>AgentInput\<close> that the handler itself reads.\<close>

record agent_input =
  prompt :: string
  files :: "string list option"
  input_project_id :: string
  input_chat_id :: string

text \<open>What \<^verbatim>\<open>onStreamChunk\<close> receives: text, or the serialised image-generation event.\<close>

datatype sink_event = Chunk string | ImageGenerationStart string

text \<open>
  The mutable variables of \<^verbatim>\<open>runAutonomousAgent\<close>. \<open>emitted\<close> is the sequence of calls of
  \<^verbatim>\<open>onStreamChunk\<close>; \<open>executed\<close> records which executor each loop iteration entered.
\<close>

record turn_state =
  finalResponseText :: string
  metadataPayload :: metadata
  currentAction :: action
  currentPrompt :: string
  routing_parameters :: "string option"
  emitted :: "sink_event list"
  executed :: "action list"

datatype flow = Return message_content | Continue | Throw js_error

definition MAX_LOOPS :: nat where
  "MAX_LOOPS = 2"

definition nl :: string where
  "nl = [CHR 0x0A]"

fun join :: "string \<Rightarrow> string list \<Rightarrow> string" where
  "join sep [] = []"
| "join sep [x] = x"
| "join sep (x # y # ys) = x @ sep @ join sep (y # ys)"

subsection \<open>Helpers of the executors\<close>

definition onStreamChunk :: "sink_event \<Rightarrow> turn_state \<Rightarrow> turn_state" where
  "onStreamChunk ev st = st\<lparr>emitted := emitted st @ [ev]\<rparr>"

definition append_response :: "string \<Rightarrow> turn_state \<Rightarrow> turn_state" where
  "append_response t st = st\<lparr>finalResponseText := finalResponseText st @ t\<rparr>"

text \<open>
  \<^verbatim>\<open>if (!metadataPayload.groundingMetadata) metadataPayload.groundingMetadata = [];\<close> followed
  by the \<^verbatim>\<open>push\<close>.
\<close>

definition push_grounding :: "string list \<Rightarrow> turn_state \<Rightarrow> turn_state" where
  "push_grounding gs st =
     st\<lparr>metadataPayload := (metadataPayload st)\<lparr>groundingMetadata :=
          Some ((case groundingMetadata (metadataPayload st) of None \<Rightarrow> [] | Some old \<Rightarrow> old) @ gs)\<rparr>\<rparr>"

text \<open>\<^verbatim>\<open>chunk.text\<close> is truthy when it is a non-empty string.\<close>

definition truthy_text :: "chunk \<Rightarrow> string option" where
  "truthy_text c = (case chunk_text c of Some t \<Rightarrow> if t \<noteq> [] then Some t else None | None \<Rightarrow> None)"

text \<open>The result message built from the accumulated text and the metadata.\<close>

definition result_message :: "agent_input \<Rightarrow> turn_state \<Rightarrow> message_content" where
  "result_message inp st =
     \<lparr>project_id = input_project_id inp, chat_id = input_chat_id inp, sender = Ai,
      msg_text = finalResponseText st, image_base64 = None, imageStatus = None,
      msg_metadata = metadataPayload st, user_id = None, plan = None\<rparr>"

text \<open>The streaming loop of THINK, CANVAS and STUDY.\<close>

fun stream_plain :: "chunk list \<Rightarrow> turn_state \<Rightarrow> turn_state" where
  "stream_plain [] st = st"
| "stream_plain (c # cs) st =
     stream_plain cs
       (case truthy_text c of
          Some t \<Rightarrow> onStreamChunk (Chunk t) (append_response t st)
        | None \<Rightarrow> st)"

text \<open>The streaming loop of SEARCH: grounding chunks are collected for every chunk.\<close>

fun stream_search :: "chunk list \<Rightarrow> turn_state \<Rightarrow> turn_state" where
  "stream_search [] st = st"
| "stream_search (c # cs) st =
     (let st1 = (case truthy_text c of
                   Some t \<Rightarrow> onStreamChunk (Chunk t) (append_response t st)
                 | None \<Rightarrow> st);
          st2 = (case groundingChunks c of
                   Some gs \<Rightarrow> push_grounding gs st1
                 | None \<Rightarrow> st1)
      in stream_search cs st2)"

text \<open>
  The streaming loop of SIMPLE: the text also goes to \<^verbatim>\<open>generatedThisLoop\<close>, and grounding
  chunks are collected only for chunks with text.
\<close>

fun stream_simple :: "chunk list \<Rightarrow> string \<times> turn_state \<Rightarrow> string \<times> turn_state" where
  "stream_simple [] acc = acc"
| "stream_simple (c # cs) (generatedThisLoop, st) =
     stream_simple cs
       (case truthy_text c of
          Some t \<Rightarrow>
            (generatedThisLoop @ t,
             let st1 = onStreamChunk (Chunk t) (append_response t st)
             in case groundingChunks c of
                  Some gs \<Rightarrow> push_grounding gs st1
                | None \<Rightarrow> st1)
        | None \<Rightarrow> (generatedThisLoop, st))"

text \<open>Reading the attached files one after the other; the first failure is thrown.\<close>

fun read_files :: "env \<Rightarrow> string list \<Rightarrow> js_error option" where
  "read_files E [] = None"
| "read_files E (f # fs) =
     (case readAsDataURL E f of
        Inl e \<Rightarrow> Some e
      | Inr _ \<Rightarrow> read_files E fs)"

subsection \<open>The action executors\<close>

text \<open>
  Each executor is one \<^verbatim>\<open>case\<close> of the \<^verbatim>\<open>switch\<close>. It runs on the state of the turn and
  ends with \<^verbatim>\<open>return\<close>, with \<^verbatim>\<open>continue\<close> or with a thrown failure; the state it leaves
  is returned in each case.
\<close>

definition finish_stream :: "agent_input \<Rightarrow> js_error option \<Rightarrow> turn_state \<Rightarrow> flow \<times> turn_state" where
  "finish_stream inp failure st =
     (case failure of
        Some e \<Rightarrow> (Throw e, st)
      | None \<Rightarrow> (Return (result_message inp st), st))"

definition exec_SEARCH :: "env \<Rightarrow> agent_input \<Rightarrow> turn_state \<Rightarrow> flow \<times> turn_state" where
  "exec_SEARCH E inp st =
     (let st1 = onStreamChunk (Chunk (nl @ nl @ ''Searching the web...'')) st;
          (chunks, failure) = generateContentStream E SEARCH (currentPrompt st1)
      in finish_stream inp failure (stream_search chunks st1))"

definition exec_DEEP_SEARCH :: "env \<Rightarrow> agent_input \<Rightarrow> turn_state \<Rightarrow> flow \<times> turn_state" where
  "exec_DEEP_SEARCH E inp st =
     (let st1 = onStreamChunk (Chunk (nl @ nl @ ''Deep Researching...'')) st;
          (progress, outcome) = deepResearch E (currentPrompt st1);
          st2 = fold (\<lambda>msg. onStreamChunk (Chunk (nl @ ''*'' @ msg @ ''*''))) progress st1
      in case outcome of
           Inl e \<Rightarrow> (Throw e, st2)
         | Inr (answer, sources) \<Rightarrow>
             (let researchText = answer @ nl @ nl @ ''**Sources:**'' @ nl @ join nl sources;
                  st3 = append_response (nl @ nl @ researchText) st2;
                  st4 = onStreamChunk (Chunk researchText) st3
              in (Return (result_message inp st4), st4)))"

definition exec_THINK :: "env \<Rightarrow> agent_input \<Rightarrow> turn_state \<Rightarrow> flow \<times> turn_state" where
  "exec_THINK E inp st =
     (let st1 = onStreamChunk (Chunk (nl @ nl @ ''Thinking...'')) st
      in case incrementThinkingCount E of
           Some e \<Rightarrow> (Throw e, st1)
         | None \<Rightarrow>
             (let (chunks, failure) = generateContentStream E THINK (currentPrompt st1)
              in finish_stream inp failure (stream_plain chunks st1)))"

definition exec_IMAGE :: "env \<Rightarrow> agent_input \<Rightarrow> turn_state \<Rightarrow> flow \<times> turn_state" where
  "exec_IMAGE E inp st =
     (let st1 = onStreamChunk (ImageGenerationStart (finalResponseText st)) st;
          imagePrompt = (case routing_parameters st1 of
                           Some p \<Rightarrow> if p \<noteq> [] then p else currentPrompt st1
                         | None \<Rightarrow> currentPrompt st1)
      in case generateImage E imagePrompt of
           Inr imageBase64 \<Rightarrow>
             (Return ((result_message inp st1)
                        \<lparr>image_base64 := Some imageBase64, imageStatus := Some ''complete''\<rparr>), st1)
         | Inl e \<Rightarrow>
             (let errorMsg = nl @ nl @ ''(Image generation failed: ''
                    @ (case e of JsError m \<Rightarrow> m | JsOther _ \<Rightarrow> ''Unknown error'') @ '')'';
                  st2 = onStreamChunk (Chunk errorMsg) (append_response errorMsg st1)
              in (Return (result_message inp st2), st2)))"

definition exec_CANVAS :: "env \<Rightarrow> agent_input \<Rightarrow> turn_state \<Rightarrow> flow \<times> turn_state" where
  "exec_CANVAS E inp st =
     (let (chunks, failure) = generateContentStream E CANVAS (currentPrompt st)
      in finish_stream inp failure (stream_plain chunks st))"

definition exec_PROJECT :: "env \<Rightarrow> agent_input \<Rightarrow> turn_state \<Rightarrow> flow \<times> turn_state" where
  "exec_PROJECT E inp st =
     (let st1 = onStreamChunk (Chunk (nl @ nl @ ''Building project structure...'')) st
      in case generateContent E (currentPrompt st1) of
           Inl e \<Rightarrow> (Throw e, st1)
         | Inr response_text \<Rightarrow>
             (let projectMsg = nl @ ''I've designed the project structure based on your request.''
                    @ nl @ nl @ response_text @ nl @ nl
                    @ ''(Switch to Co-Creator mode to fully hydrate and edit these files.)'';
                  st2 = onStreamChunk (Chunk projectMsg) (append_response projectMsg st1)
              in (Return (result_message inp st2), st2)))"

definition exec_STUDY :: "env \<Rightarrow> agent_input \<Rightarrow> turn_state \<Rightarrow> flow \<times> turn_state" where
  "exec_STUDY E inp st =
     (let st1 = onStreamChunk (Chunk (nl @ nl @ ''Creating study plan...'')) st;
          (chunks, failure) = generateContentStream E STUDY (currentPrompt st1)
      in finish_stream inp failure (stream_plain chunks st1))"

text \<open>
  The SIMPLE executor (also the \<^verbatim>\<open>default\<close> case): it streams, then runs the tag detection
  on what this iteration generated. A detected tag sets the next action and prompt (and,
  for IMAGE, the routing parameter) and continues the loop; the accumulated text is left
  as it is. Without a tag the turn ends, with a memory directive when more than 50
  characters were generated.
\<close>

definition exec_SIMPLE :: "env \<Rightarrow> agent_input \<Rightarrow> turn_state \<Rightarrow> flow \<times> turn_state" where
  "exec_SIMPLE E inp st =
     (case read_files E (case files inp of Some fs \<Rightarrow> fs | None \<Rightarrow> []) of
        Some e \<Rightarrow> (Throw e, st)
      | None \<Rightarrow>
          (let (chunks, failure) = generateContentStream E SIMPLE (currentPrompt st);
               (generatedThisLoop, st1) = stream_simple chunks ([], st)
           in case failure of
                Some e \<Rightarrow> (Throw e, st1)
              | None \<Rightarrow>
                  (case tag_detection (prompt inp) generatedThisLoop of
                     Some (a, p) \<Rightarrow>
                       (Continue,
                        st1\<lparr>currentAction := a, currentPrompt := p,
                            routing_parameters :=
                              (if a = IMAGE then Some p else routing_parameters st1)\<rparr>)
                   | None \<Rightarrow>
                       (let st2 = (if length generatedThisLoop > 50
                                   then st1\<lparr>metadataPayload := (metadataPayload st1)
                                          \<lparr>memoryToCreate :=
                                             Some [(''outer_personal'', ''last_topic'', prompt inp)]\<rparr>\<rparr>
                                   else st1)
                        in (Return (result_message inp st2), st2)))))"

definition execute :: "env \<Rightarrow> agent_input \<Rightarrow> turn_state \<Rightarrow> flow \<times> turn_state" where
  "execute E inp st =
     (case currentAction st of
        SEARCH \<Rightarrow> exec_SEARCH E inp st
      | DEEP_SEARCH \<Rightarrow> exec_DEEP_SEARCH E inp st
      | THINK \<Rightarrow> exec_THINK E inp st
      | IMAGE \<Rightarrow> exec_IMAGE E inp st
      | CANVAS \<Rightarrow> exec_CANVAS E inp st
      | PROJECT \<Rightarrow> exec_PROJECT E inp st
      | STUDY \<Rightarrow> exec_STUDY E inp st
      | SIMPLE \<Rightarrow> exec_SIMPLE E inp st)"

subsection \<open>The routing loop and the turn\<close>

text \<open>
  The \<^verbatim>\<open>while\<close> loop of lines 47 to 334 and the \<^verbatim>\<open>return\<close> after it. \<open>loopCount\<close> is the
  loop counter; no executor reads or writes it. One iteration enters the executor of the
  current action (and notes that in \<open>executed\<close>). The result of the loop is the returned
  message or the thrown failure, with the state at that point.
\<close>

definition iteration :: "env \<Rightarrow> agent_input \<Rightarrow> turn_state \<Rightarrow> flow \<times> turn_state" where
  "iteration E inp st = execute E inp (st\<lparr>executed := executed st @ [currentAction st]\<rparr>)"

function routing_loop ::
  "env \<Rightarrow> agent_input \<Rightarrow> nat \<Rightarrow> turn_state \<Rightarrow> (js_error + message_content) \<times> turn_state" where
  "routing_loop E inp loopCount st =
     (if loopCount < MAX_LOOPS then
        (case iteration E inp st of
           (Return m, st') \<Rightarrow> (Inr m, st')
         | (Throw e, st') \<Rightarrow> (Inl e, st')
         | (Continue, st') \<Rightarrow> routing_loop E inp (loopCount + 1) st')
      else (Inr (result_message inp st), st))"
  by pat_completeness auto
termination
  by (relation "measure (\<lambda>(E, inp, loopCount, st). MAX_LOOPS - loopCount)") auto

declare routing_loop.simps [simp del]

text \<open>The state of the turn when the loop is entered, after routing.\<close>

definition initial_state :: "agent_input \<Rightarrow> routing \<Rightarrow> turn_state" where
  "initial_state inp r =
     \<lparr>finalResponseText = [],
      metadataPayload = \<lparr>groundingMetadata = None, memoryToCreate = None\<rparr>,
      currentAction = route_action r,
      currentPrompt = prompt inp,
      routing_parameters = parameters_prompt r,
      emitted = [],
      executed = []\<rparr>"

text \<open>
  The body of the \<^verbatim>\<open>try\<close> block: routing, memory context, loop. The second component is
  the list of executors that were entered (none when routing or the memory lookup fails).
\<close>

definition agent_body :: "env \<Rightarrow> agent_input \<Rightarrow> (js_error + message_content) \<times> action list" where
  "agent_body E inp =
     (let fileCount = (case files inp of Some fs \<Rightarrow> length fs | None \<Rightarrow> 0)
      in case route E (prompt inp) fileCount of
           Inl e \<Rightarrow> (Inl e, [])
         | Inr r \<Rightarrow>
             (case getContext E of
                Inl e \<Rightarrow> (Inl e, [])
              | Inr memoryContext \<Rightarrow>
                  (let (res, st) = routing_loop E inp 0 (initial_state inp r)
                   in (res, executed st))))"

text \<open>The message that the \<^verbatim>\<open>catch\<close> block returns.\<close>

definition error_message :: "env \<Rightarrow> agent_input \<Rightarrow> js_error \<Rightarrow> message_content" where
  "error_message E inp e =
     \<lparr>project_id = input_project_id inp, chat_id = input_chat_id inp, sender = Ai,
      msg_text = ''An error occurred: '' @ getUserFriendlyError E e,
      image_base64 = None, imageStatus = None,
      msg_metadata = \<lparr>groundingMetadata = None, memoryToCreate = None\<rparr>,
      user_id = None, plan = None\<rparr>"

text \<open>\<^verbatim>\<open>runAutonomousAgent\<close>: the field \<^verbatim>\<open>messages\<close> of its result.\<close>

definition runAutonomousAgent :: "env \<Rightarrow> agent_input \<Rightarrow> message_content list" where
  "runAutonomousAgent E inp =
     (case fst (agent_body E inp) of
        Inr m \<Rightarrow> [m]
      | Inl e \<Rightarrow> [error_message E inp e])"

section \<open>The chat hook (\<^verbatim>\<open>useChat\<close>, \<^verbatim>\<open>src/unnamed/part_001\<close>)\<close>

subsection \<open>Messages and the state of the hook\<close>

record message = message_content +
  id :: string
  created_at :: "string option"

definition with_id :: "string \<Rightarrow> string option \<Rightarrow> message_content \<Rightarrow> message" where
  "with_id i t mc =
     \<lparr>project_id = project_id mc, chat_id = chat_id mc, sender = sender mc,
      msg_text = msg_text mc, image_base64 = image_base64 mc, imageStatus = imageStatus mc,
      msg_metadata = msg_metadata mc, user_id = user_id mc, plan = plan mc,
      id = i, created_at = t\<rparr>"

text \<open>The two fields of a chat that the hook reads: \<^verbatim>\<open>id\<close> and \<^verbatim>\<open>project_id\<close>.\<close>

record chat_ref =
  chat_ref_id :: string
  chat_ref_project_id :: string

text \<open>The values that the callbacks close over.\<close>

record hook_context =
  supabase :: bool
  user :: "string option"
  geminiApiKey :: "string option"
  activeChat :: "chat_ref option"

text \<open>
  The state of one hook instance: the React state \<open>messages\<close> and \<open>isLoading\<close>, the two
  refs, the toasts shown so far, and the pending timers of line 383, each with the time in
  milliseconds that is left until its callback clears \<open>isSendingRef\<close>.
\<close>

record chat_hook =
  messages :: "message list"
  isLoading :: bool
  isSendingRef :: bool
  activeChatIdRef :: "string option"
  toasts :: "(string \<times> string) list"
  release_timers :: "nat list"

record agent_result =
  result_messages :: "message_content list"
  updatedPlan :: "(string \<times> string) option"

text \<open>
  What the outside world answers during one call of \<^verbatim>\<open>handleSendMessage\<close>: the clock,
  the file reader, the persistence backend, and the agent (\<^verbatim>\<open>runAgent\<close> is not part of the
  sources at hand) with the chunks it streams before it settles; \<open>duration\<close> is the time in
  milliseconds from the call to its \<^verbatim>\<open>finally\<close> block.
  \<open>is_image_generation_start\<close> tells whether a chunk parses as JSON with
  \<^verbatim>\<open>type === 'image_generation_start'\<close>.
\<close>

record send_env =
  now_tempId :: nat
  now_tempUserMsgId :: nat
  toISOString :: string
  fileToBase64_all :: "js_error + string list"
  JSON_stringify :: "string list \<Rightarrow> string"
  addMessage_user :: "js_error + message"
  streamed :: "string list"
  is_image_generation_start :: "string \<Rightarrow> bool"
  runAgent :: "js_error + agent_result"
  addMessage_ai :: "nat \<Rightarrow> message_content \<Rightarrow> js_error + message"
  now_failed_save :: "nat \<Rightarrow> nat"
  updateMessagePlan :: "js_error option"
  duration :: nat

definition setMessages :: "(message list \<Rightarrow> message list) \<Rightarrow> chat_hook \<Rightarrow> chat_hook" where
  "setMessages f st = st\<lparr>messages := f (messages st)\<rparr>"

definition addToast :: "string \<Rightarrow> string \<Rightarrow> chat_hook \<Rightarrow> chat_hook" where
  "addToast msg kind st = st\<lparr>toasts := toasts st @ [(msg, kind)]\<rparr>"

text \<open>Decimal printing of a number, for the ids built from \<^verbatim>\<open>Date.now()\<close>.\<close>

definition digit_char :: "nat \<Rightarrow> char" where
  "digit_char d = ''0123456789'' ! (d mod 10)"

function show_nat :: "nat \<Rightarrow> string" where
  "show_nat n = (if n < 10 then [digit_char n] else show_nat (n div 10) @ [digit_char (n mod 10)])"
  by pat_completeness auto
termination
  by (relation "measure (\<lambda>n. n)") auto

declare show_nat.simps [simp del]

subsection \<open>Background history refetch\<close>

text \<open>The updater of line 114: the smart merge of a fetched history into the held messages.\<close>

definition merge_history :: "string \<Rightarrow> message list \<Rightarrow> message list \<Rightarrow> message list" where
  "merge_history chatId history prev =
     (let optimisticMessages =
            filter (\<lambda>p. chat_id p = chatId \<and> \<not> list_ex (\<lambda>h. id h = id p) history) prev
      in if length optimisticMessages > 0 then history @ optimisticMessages else history)"

text \<open>
  \<^verbatim>\<open>fetchMessages\<close>, run to completion; \<open>getMessages\<close> is what the persistence backend
  answers, and \<open>activeChatIdRef\<close> is read when that answer has arrived.
\<close>

definition fetchMessages :: "hook_context \<Rightarrow> js_error + message list \<Rightarrow> chat_hook \<Rightarrow> chat_hook" where
  "fetchMessages ctx getMessages st =
     (case (if supabase ctx then activeChat ctx else None) of
        Some c \<Rightarrow>
          (let chatId = chat_ref_id c;
               st1 = (if \<not> isSendingRef st then st\<lparr>isLoading := True\<rparr> else st);
               st2 = (case getMessages of
                        Inr history \<Rightarrow>
                          if activeChatIdRef st1 = Some chatId
                          then setMessages (merge_history chatId history) st1
                          else st1
                      | Inl e \<Rightarrow> st1)
           in st2\<lparr>isLoading := False\<rparr>)
      | None \<Rightarrow> setMessages (\<lambda>prev. []) st)"

subsection \<open>Sending a message\<close>

text \<open>The first guard of \<^verbatim>\<open>handleSendMessage\<close> (line 197), negated.\<close>

definition has_required_input ::
  "hook_context \<Rightarrow> string \<Rightarrow> string list option \<Rightarrow> chat_ref option \<Rightarrow> bool" where
  "has_required_input ctx txt fs chatToUse =
     (\<not> ((trim txt = [] \<and> (fs = None \<or> fs = Some []))
         \<or> \<not> supabase ctx \<or> user ctx = None \<or> chatToUse = None
         \<or> geminiApiKey ctx = None \<or> geminiApiKey ctx = Some []))"

text \<open>
  Lines 197 to 203, the synchronous entry of a call: \<open>None\<close> when the call returns
  \<^verbatim>\<open>{ messages: [] }\<close> at once, otherwise the state with the latch taken.
\<close>

definition acquire ::
  "hook_context \<Rightarrow> string \<Rightarrow> string list option \<Rightarrow> chat_ref option \<Rightarrow> chat_hook \<Rightarrow> chat_hook option" where
  "acquire ctx txt fs chatToUse st =
     (if \<not> has_required_input ctx txt fs chatToUse then None
      else if isSendingRef st then None
      else Some (st\<lparr>isSendingRef := True\<rparr>))"

definition empty_result :: agent_result where
  "empty_result = \<lparr>result_messages = [], updatedPlan = None\<rparr>"

text \<open>The callback \<^verbatim>\<open>onStreamChunk\<close> of the hook, applied to the streamed chunks in order.\<close>

fun on_chunks :: "send_env \<Rightarrow> string \<Rightarrow> string list \<Rightarrow> string \<times> chat_hook \<Rightarrow> string \<times> chat_hook" where
  "on_chunks E tempId [] acc = acc"
| "on_chunks E tempId (c # cs) (currentText, st) =
     (if is_image_generation_start E c then
        on_chunks E tempId cs
          (currentText,
           setMessages (map (\<lambda>m. if id m = tempId
                                  then m\<lparr>msg_text := currentText, imageStatus := Some ''generating''\<rparr>
                                  else m)) st)
      else
        (let currentText' = currentText @ c
         in on_chunks E tempId cs
              (currentText',
               setMessages (map (\<lambda>m. if id m = tempId then m\<lparr>msg_text := currentText'\<rparr> else m)) st)))"

text \<open>
  Line 304: the text to save is the text of the agent's message, or the streamed text when
  that is empty.
\<close>

definition final_content :: "string \<Rightarrow> message_content \<Rightarrow> string" where
  "final_content currentText messageContent =
     (if msg_text messageContent \<noteq> [] then msg_text messageContent else currentText)"

text \<open>Lines 313 to 321: the local record that stands in for a message that could not be saved.\<close>

definition fallback_message :: "send_env \<Rightarrow> chat_ref \<Rightarrow> string \<Rightarrow> nat \<Rightarrow> message_content \<Rightarrow> message" where
  "fallback_message E chatToUse currentText k messageContent =
     with_id (''failed-save-'' @ show_nat (now_failed_save E k))
       (Some (toISOString E))
       (messageContent\<lparr>msg_text := final_content currentText messageContent,
                       project_id := chat_ref_project_id chatToUse,
                       chat_id := chat_ref_id chatToUse,
                       sender := Ai\<rparr>)"

text \<open>
  One pass of the loop of lines 293 to 325, for the message at index \<open>k\<close>: the message is
  saved, or kept as a local record, with a toast, when saving throws. (The memory
  directives of a message are saved in the background and leave no trace in this state.)
\<close>

definition save_ai_message ::
  "send_env \<Rightarrow> chat_ref \<Rightarrow> string \<Rightarrow> nat \<Rightarrow> message_content
     \<Rightarrow> message list \<times> chat_hook \<Rightarrow> message list \<times> chat_hook" where
  "save_ai_message E chatToUse currentText k messageContent acc =
     (let (savedAiMessages, st) = acc
      in case addMessage_ai E k
                (messageContent\<lparr>msg_text := final_content currentText messageContent,
                                project_id := chat_ref_project_id chatToUse\<rparr>) of
           Inr savedAiMessage \<Rightarrow> (savedAiMessages @ [savedAiMessage], st)
         | Inl aiDbError \<Rightarrow>
             (savedAiMessages @ [fallback_message E chatToUse currentText k messageContent],
              addToast ''Failed to save AI response to history, but here it is.'' ''error'' st))"

fun save_ai_messages ::
  "send_env \<Rightarrow> chat_ref \<Rightarrow> string \<Rightarrow> nat \<Rightarrow> message_content list
     \<Rightarrow> message list \<times> chat_hook \<Rightarrow> message list \<times> chat_hook" where
  "save_ai_messages E chatToUse currentText k [] acc = acc"
| "save_ai_messages E chatToUse currentText k (messageContent # rest) acc =
     save_ai_messages E chatToUse currentText (k + 1) rest
       (save_ai_message E chatToUse currentText k messageContent acc)"

fun find_index :: "('a \<Rightarrow> bool) \<Rightarrow> 'a list \<Rightarrow> nat option" where
  "find_index P [] = None"
| "find_index P (x # xs) = (if P x then Some 0 else map_option Suc (find_index P xs))"

text \<open>
  The updater of line 332: the temporary assistant message is replaced by the saved ones
  (\<^verbatim>\<open>splice\<close>), then the plan is updated; when the temporary message is gone, the saved
  ones are appended.
\<close>

definition reconcile ::
  "string \<Rightarrow> message list \<Rightarrow> (string \<times> string) option \<Rightarrow> message list \<Rightarrow> message list" where
  "reconcile tempId savedAiMessages updPlan prev =
     (case find_index (\<lambda>m. id m = tempId) prev of
        Some tempMessageIndex \<Rightarrow>
          (let newMessages = take tempMessageIndex prev @ savedAiMessages
                               @ drop (Suc tempMessageIndex) prev
           in case updPlan of
                Some (messageId, pl) \<Rightarrow>
                  map (\<lambda>m. if id m = messageId then m\<lparr>plan := Some pl\<rparr> else m) newMessages
              | None \<Rightarrow> newMessages)
      | None \<Rightarrow> filter (\<lambda>m. id m \<noteq> tempId) prev @ savedAiMessages)"

text \<open>
  The text of a caught failure (lines 363 to 367) is \<open>error_text\<close>. The warning sign that
  starts the text shown in the placeholder is written in its UTF-8 bytes.
\<close>

definition warning_sign :: string where
  "warning_sign = [CHR 0xE2, CHR 0x9A, CHR 0xA0, CHR 0xEF, CHR 0xB8, CHR 0x8F]"

text \<open>The outer \<^verbatim>\<open>catch\<close> block.\<close>

definition send_catch :: "string \<Rightarrow> js_error \<Rightarrow> chat_hook \<Rightarrow> agent_result \<times> chat_hook" where
  "send_catch tempId e st =
     (let errorMessage = error_text e;
          st1 = addToast errorMessage ''error'' st
      in (empty_result,
          setMessages (map (\<lambda>m. if id m = tempId
                                 then m\<lparr>msg_text := warning_sign @ '' Error: '' @ errorMessage
                                                      @ ''. Please try again.'',
                                        sender := Ai\<rparr>
                                 else m)) st1))"

text \<open>The \<^verbatim>\<open>finally\<close> block: the latch is cleared by a timer, 500 ms later.\<close>

definition send_finally :: "chat_hook \<Rightarrow> chat_hook" where
  "send_finally st = st\<lparr>isLoading := False, release_timers := release_timers st @ [500]\<rparr>"

text \<open>The two placeholder ids of lines 205 and 206.\<close>

definition temp_ai_id :: "send_env \<Rightarrow> string" where
  "temp_ai_id E = ''temp-ai-'' @ show_nat (now_tempId E)"

definition temp_user_id :: "send_env \<Rightarrow> string" where
  "temp_user_id E = ''temp-user-'' @ show_nat (now_tempUserMsgId E)"

text \<open>
  Lines 210 to 225: the data of the user message; \<open>attached\<close> says whether there are
  files, \<open>base64Strings\<close> is what reading them gave (one string per file).
\<close>

definition user_message_data ::
  "send_env \<Rightarrow> string \<Rightarrow> chat_ref \<Rightarrow> string \<Rightarrow> bool \<Rightarrow> string list \<Rightarrow> message_content" where
  "user_message_data E u chatToUse txt attached base64Strings =
     \<lparr>project_id = chat_ref_project_id chatToUse, chat_id = chat_ref_id chatToUse,
      sender = User, msg_text = txt,
      image_base64 = (if attached
                      then Some (case base64Strings of
                                   [b] \<Rightarrow> b
                                 | _ \<Rightarrow> JSON_stringify E base64Strings)
                      else None),
      imageStatus = None,
      msg_metadata = \<lparr>groundingMetadata = None, memoryToCreate = None\<rparr>,
      user_id = Some u, plan = None\<rparr>"

text \<open>Lines 227 to 237: the optimistic update with the two placeholders.\<close>

definition optimistic_update ::
  "send_env \<Rightarrow> chat_ref \<Rightarrow> message_content \<Rightarrow> chat_hook \<Rightarrow> chat_hook" where
  "optimistic_update E chatToUse userMessageData st =
     (let optimisticUserMessage =
            with_id (temp_user_id E) (Some (toISOString E)) userMessageData;
          tempAiMessage =
            with_id (temp_ai_id E) None
              \<lparr>project_id = chat_ref_project_id chatToUse,
               chat_id = chat_ref_id chatToUse, sender = Ai, msg_text = [],
               image_base64 = None, imageStatus = None,
               msg_metadata = \<lparr>groundingMetadata = None, memoryToCreate = None\<rparr>,
               user_id = None, plan = None\<rparr>
      in (setMessages (\<lambda>prev. prev @ [optimisticUserMessage, tempAiMessage]) st)
           \<lparr>isLoading := True\<rparr>)"

text \<open>
  Lines 239 to 251: the user message is saved and replaces its placeholder; when saving
  throws, the placeholder stays.
\<close>

definition save_user_message :: "send_env \<Rightarrow> chat_hook \<Rightarrow> chat_hook" where
  "save_user_message E st =
     (case addMessage_user E of
        Inr savedUserMessage \<Rightarrow>
          setMessages (map (\<lambda>m. if id m = temp_user_id E then savedUserMessage else m)) st
      | Inl dbError \<Rightarrow> st)"

text \<open>
  Lines 290 to 359, after the agent has settled with a result: its messages are saved, the
  view is reconciled, the plan is updated in the backend.
\<close>

definition persist_agent_result ::
  "send_env \<Rightarrow> chat_ref \<Rightarrow> string \<Rightarrow> agent_result \<Rightarrow> chat_hook \<Rightarrow> agent_result \<times> chat_hook" where
  "persist_agent_result E chatToUse currentText agentResult st =
     (let (savedAiMessages, st1) =
            save_ai_messages E chatToUse currentText 0 (result_messages agentResult) ([], st);
          st2 = setMessages
                  (reconcile (temp_ai_id E) savedAiMessages (updatedPlan agentResult)) st1
      in case updatedPlan agentResult of
           None \<Rightarrow> (agentResult, st2)
         | Some _ \<Rightarrow>
             (case updateMessagePlan E of
                Some e \<Rightarrow> send_catch (temp_ai_id E) e st2
              | None \<Rightarrow> (agentResult, st2)))"

text \<open>
  The \<^verbatim>\<open>try\<close> block with its \<^verbatim>\<open>catch\<close>, from line 205 on, for a call that has taken the
  latch; \<open>u\<close> is the id of the user and \<open>chatToUse\<close> the chat. It is run to completion: all
  its writes to \<open>messages\<close> are functional updates of the state of that moment. When the
  attached files cannot be read, the latch is cleared at once (line 222).
\<close>

definition send_try ::
  "send_env \<Rightarrow> string \<Rightarrow> chat_ref \<Rightarrow> string \<Rightarrow> string list option \<Rightarrow> chat_hook
     \<Rightarrow> agent_result \<times> chat_hook" where
  "send_try E u chatToUse txt fs st =
     (let attached = (case fs of Some (f # fs') \<Rightarrow> True | _ \<Rightarrow> False)
      in case (if attached then fileToBase64_all E else Inr []) of
           Inl e \<Rightarrow>
             (empty_result,
              (addToast ''Failed to read the attached file(s).'' ''error'' st)
                \<lparr>isSendingRef := False\<rparr>)
         | Inr base64Strings \<Rightarrow>
             (let st1 = optimistic_update E chatToUse
                          (user_message_data E u chatToUse txt attached base64Strings) st;
                  st2 = save_user_message E st1;
                  (currentText, st3) = on_chunks E (temp_ai_id E) (streamed E) ([], st2)
              in case runAgent E of
                   Inl e \<Rightarrow> send_catch (temp_ai_id E) e st3
                 | Inr agentResult \<Rightarrow>
                     persist_agent_result E chatToUse currentText agentResult st3))"

text \<open>
  The passing of \<open>d\<close> milliseconds: every timer that comes due runs its callback, which
  clears the latch.
\<close>

definition elapse :: "nat \<Rightarrow> chat_hook \<Rightarrow> chat_hook" where
  "elapse d st =
     st\<lparr>isSendingRef := (if list_ex (\<lambda>t. t \<le> d) (release_timers st) then False
                          else isSendingRef st),
        release_timers := map (\<lambda>t. t - d) (filter (\<lambda>t. d < t) (release_timers st))\<rparr>"

text \<open>
  \<^verbatim>\<open>handleSendMessage\<close>: entry, \<^verbatim>\<open>try\<close>/\<^verbatim>\<open>catch\<close>, \<^verbatim>\<open>finally\<close>. \<open>chatToUse\<close> is the third
  argument after its default, the active chat, has been filled in. The call is in flight for
  \<open>duration E\<close> milliseconds; timers of earlier calls that come due meanwhile run their
  callbacks. The body neither reads the latch nor touches the timers, so it does not
  matter at which of its suspension points they run.
\<close>

definition handleSendMessage ::
  "send_env \<Rightarrow> hook_context \<Rightarrow> string \<Rightarrow> string list option \<Rightarrow> chat_ref option \<Rightarrow> chat_hook
     \<Rightarrow> agent_result \<times> chat_hook" where
  "handleSendMessage E ctx txt fs chatToUse st =
     (case acquire ctx txt fs chatToUse st of
        None \<Rightarrow> (empty_result, st)
      | Some st1 \<Rightarrow>
          (case (user ctx, chatToUse) of
             (Some u, Some c) \<Rightarrow>
               (let (res, st2) = send_try E u c txt fs st1
                in (res, send_finally (elapse (duration E) st2)))
           | _ \<Rightarrow> (empty_result, st)))"

section \<open>Auxiliary notions for the statements\<close>

text \<open>The text that a list of chunks contributes: the truthy texts, in order.\<close>

definition chunk_texts :: "chunk list \<Rightarrow> string" where
  "chunk_texts cs = concat (map (\<lambda>c. case truthy_text c of Some t \<Rightarrow> t | None \<Rightarrow> []) cs)"

text \<open>
  What every executor guarantees about the accumulated text: the text before is a prefix of
  the text after, the record of entered executors is untouched, and a returned message
  carries the accumulated text.
\<close>

definition step_ok :: "agent_input \<Rightarrow> turn_state \<Rightarrow> flow \<Rightarrow> turn_state \<Rightarrow> bool" where
  "step_ok inp st fl st' = (prefix (finalResponseText st) (finalResponseText st') \<and> executed st' = executed st
     \<and> (\<forall>m. fl = Return m \<longrightarrow> msg_text m = finalResponseText st'))"

text \<open>
  \<open>no_match_starts ic pat pre rest\<close>: in the text \<open>pre @ rest\<close>, no match of the pattern
  begins at a position inside \<open>pre\<close>; a match that begins at \<open>rest\<close> is then the leftmost
  one. \<open>not_starting ic lit p rest\<close> says the same of a literal.
\<close>

fun no_match_starts :: "bool \<Rightarrow> atom list \<Rightarrow> string \<Rightarrow> string \<Rightarrow> bool" where
  "no_match_starts ic pat [] rest = True"
| "no_match_starts ic pat (c # cs) rest =
     (matcher ic pat (c # cs @ rest) = None \<and> no_match_starts ic pat cs rest)"

fun not_starting :: "bool \<Rightarrow> string \<Rightarrow> string \<Rightarrow> string \<Rightarrow> bool" where
  "not_starting ic lit [] rest = True"
| "not_starting ic lit (c # cs) rest =
     (strip_literal ic lit (c # cs @ rest) = None \<and> not_starting ic lit cs rest)"

text \<open>Reading the attached files fails: there is an attachment and the reader rejects.\<close>

definition reading_fails :: "send_env \<Rightarrow> string list option \<Rightarrow> bool" where
  "reading_fails E fs =
     (case fs of
        Some (f # fs') \<Rightarrow> (case fileToBase64_all E of Inl e \<Rightarrow> True | Inr bs \<Rightarrow> False)
      | _ \<Rightarrow> False)"


text \<open>
  The first failure among the backend calls that the executor of the current action makes,
  in the order in which it makes them; the image executor catches the failure of its one
  call itself.
\<close>

definition backend_failure :: "env \<Rightarrow> agent_input \<Rightarrow> turn_state \<Rightarrow> js_error option" where
  "backend_failure E inp st =
     (case currentAction st of
        SEARCH \<Rightarrow> snd (generateContentStream E SEARCH (currentPrompt st))
      | DEEP_SEARCH \<Rightarrow>
          (case snd (deepResearch E (currentPrompt st)) of Inl e \<Rightarrow> Some e | Inr _ \<Rightarrow> None)
      | THINK \<Rightarrow>
          (case incrementThinkingCount E of
             Some e \<Rightarrow> Some e
           | None \<Rightarrow> snd (generateContentStream E THINK (currentPrompt st)))
      | IMAGE \<Rightarrow> None
      | CANVAS \<Rightarrow> snd (generateContentStream E CANVAS (currentPrompt st))
      | PROJECT \<Rightarrow>
          (case generateContent E (currentPrompt st) of Inl e \<Rightarrow> Some e | Inr _ \<Rightarrow> None)
      | STUDY \<Rightarrow> snd (generateContentStream E STUDY (currentPrompt st))
      | SIMPLE \<Rightarrow>
          (case read_files E (case files inp of Some fs \<Rightarrow> fs | None \<Rightarrow> []) of
             Some e \<Rightarrow> Some e
           | None \<Rightarrow> snd (generateContentStream E SIMPLE (currentPrompt st))))"

text \<open>The prompt of the image request: the routing parameter when it is set and not empty.\<close>

definition image_prompt :: "turn_state \<Rightarrow> string" where
  "image_prompt st =
     (case routing_parameters st of
        Some p \<Rightarrow> if p \<noteq> [] then p else currentPrompt st
      | None \<Rightarrow> currentPrompt st)"

text \<open>The note that the image executor appends when the generation fails.\<close>

definition image_failure_note :: "js_error \<Rightarrow> string" where
  "image_failure_note e =
     nl @ nl @ ''(Image generation failed: ''
       @ (case e of JsError m \<Rightarrow> m | JsOther v \<Rightarrow> ''Unknown error'') @ '')''"

text \<open>
  The number of files that is passed to the router.
\<close>

definition file_count :: "agent_input \<Rightarrow> nat" where
  "file_count inp = (case files inp of Some fs \<Rightarrow> length fs | None \<Rightarrow> 0)"

text \<open>
  The text contains the opening tag of a marker for the action: literally, and for the
  deep-cued search marker in any letter case.
\<close>

definition has_marker :: "action \<Rightarrow> string \<Rightarrow> bool" where
  "has_marker a s =
     (case a of
        SIMPLE \<Rightarrow> False
      | SEARCH \<Rightarrow> sublist ''<SEARCH>'' s
      | DEEP_SEARCH \<Rightarrow>
          sublist ''<DEEP>'' s \<or> (\<exists>t. sublist t s \<and> map ascii_upper t = ''<SEARCH>DEEP'')
      | THINK \<Rightarrow> sublist ''<THINK>'' s
      | IMAGE \<Rightarrow> sublist ''<IMAGE>'' s
      | PROJECT \<Rightarrow> sublist ''<PROJECT>'' s
      | CANVAS \<Rightarrow> sublist ''<CANVAS>'' s
      | STUDY \<Rightarrow> sublist ''<STUDY>'' s)"

section \<open>Concrete turns\<close>

text \<open>
  An environment in which every collaborator answers and nothing is generated; the
  concrete turns below change single answers of it.
\<close>

definition quiet_env :: env where
  "quiet_env =
     \<lparr>route = (\<lambda>p n. Inr \<lparr>route_action = SIMPLE, parameters_prompt = None\<rparr>),
      getContext = Inr ''{}'',
      generateContentStream = (\<lambda>a p. ([], None)),
      generateContent = (\<lambda>p. Inr ''{}''),
      deepResearch = (\<lambda>q. ([], Inr ([], []))),
      incrementThinkingCount = None,
      generateImage = (\<lambda>p. Inr ''iVBORw0KGgo=''),
      readAsDataURL = (\<lambda>f. Inr []),
      getUserFriendlyError = error_text\<rparr>"

definition text_chunk :: "string \<Rightarrow> chunk" where
  "text_chunk t = \<lparr>chunk_text = Some t, groundingChunks = None\<rparr>"

text \<open>
  The turn of the spec's scenario B: routed to SIMPLE, whose answer asks for an image;
  the image is generated.
\<close>

definition cat_input :: agent_input where
  "cat_input = \<lparr>prompt = ''draw a cute cat'', files = None,
                 input_project_id = ''project-1'', input_chat_id = ''chat-1''\<rparr>"

definition cat_env :: env where
  "cat_env = quiet_env\<lparr>generateContentStream :=
     (\<lambda>a p. if a = SIMPLE
             then ([text_chunk ''I'll generate that image! '', text_chunk ''<IMAGE>a cute cat</IMAGE>''], None)
             else ([], None))\<rparr>"

text \<open>
  A turn routed to SIMPLE, whose answer asks for a web search; the search request then
  fails.
\<close>

definition france_input :: agent_input where
  "france_input = \<lparr>prompt = ''What's the capital of France?'', files = None,
                    input_project_id = ''project-1'', input_chat_id = ''chat-1''\<rparr>"

definition france_env :: env where
  "france_env = quiet_env\<lparr>generateContentStream :=
     (\<lambda>a p. if a = SIMPLE
             then ([text_chunk ''Let me check that for you. <SEARCH>capital of france</SEARCH>''], None)
             else ([], Some (JsError ''quota exceeded'')))\<rparr>"

text \<open>The France turn when the search succeeds and streams an answer.\<close>

definition france_answer_env :: env where
  "france_answer_env = quiet_env\<lparr>generateContentStream :=
     (\<lambda>a p. if a = SIMPLE
             then ([text_chunk ''Let me check that for you. <SEARCH>capital of france</SEARCH>''], None)
             else ([text_chunk ''Paris is '', text_chunk ''the capital of France.''], None))\<rparr>"

text \<open>A turn that is routed to SEARCH at once; the search request fails.\<close>

definition search_routed_env :: env where
  "search_routed_env =
     france_env\<lparr>route := (\<lambda>p n. Inr \<lparr>route_action = SEARCH, parameters_prompt = None\<rparr>)\<rparr>"

text \<open>The cat turn when the image cannot be generated.\<close>

definition cat_refused_env :: env where
  "cat_refused_env = cat_env\<lparr>generateImage := (\<lambda>p. Inl (JsError ''blocked by safety filter''))\<rparr>"

text \<open>The states in which the two turns enter the loop.\<close>

definition cat_start :: turn_state where
  "cat_start = initial_state cat_input \<lparr>route_action = SIMPLE, parameters_prompt = None\<rparr>"

definition france_start :: turn_state where
  "france_start = initial_state france_input \<lparr>route_action = SIMPLE, parameters_prompt = None\<rparr>"

text \<open>A hook instance with two chats of one project, idle, and what the world answers.\<close>

definition chat_a :: chat_ref where
  "chat_a = \<lparr>chat_ref_id = ''chat-1'', chat_ref_project_id = ''project-1''\<rparr>"

definition chat_b :: chat_ref where
  "chat_b = \<lparr>chat_ref_id = ''chat-2'', chat_ref_project_id = ''project-1''\<rparr>"

definition signed_in :: hook_context where
  "signed_in = \<lparr>supabase = True, user = Some ''user-1'', geminiApiKey = Some ''key'',
                 activeChat = Some chat_a\<rparr>"

definition idle_hook :: chat_hook where
  "idle_hook = \<lparr>messages = [], isLoading = False, isSendingRef = False,
                activeChatIdRef = Some ''chat-1'', toasts = [], release_timers = []\<rparr>"

definition plain_content :: "string \<Rightarrow> sender \<Rightarrow> string \<Rightarrow> message_content" where
  "plain_content chat who txt =
     \<lparr>project_id = ''project-1'', chat_id = chat, sender = who, msg_text = txt,
      image_base64 = None, imageStatus = None,
      msg_metadata = \<lparr>groundingMetadata = None, memoryToCreate = None\<rparr>,
      user_id = None, plan = None\<rparr>"

definition plain_message :: "string \<Rightarrow> string \<Rightarrow> sender \<Rightarrow> string \<Rightarrow> message" where
  "plain_message i chat who txt = with_id i (Some ''2025-01-01T00:00:00.000Z'') (plain_content chat who txt)"

text \<open>A send in which everything succeeds: the agent answers \<open>Paris.\<close>\<close>

definition paris_env :: send_env where
  "paris_env =
     \<lparr>now_tempId = 1041, now_tempUserMsgId = 1041,
      toISOString = ''2025-01-01T00:00:00.000Z'',
      fileToBase64_all = Inr [],
      JSON_stringify = concat,
      addMessage_user = Inr (plain_message ''msg-1'' ''chat-1'' User ''What's the capital of France?''),
      streamed = [''Par'', ''is.''],
      is_image_generation_start = (\<lambda>c. False),
      runAgent = Inr \<lparr>result_messages = [plain_content ''chat-1'' Ai ''Paris.''],
                       updatedPlan = None\<rparr>,
      addMessage_ai = (\<lambda>k mc. Inr (with_id ''msg-2'' (Some ''2025-01-01T00:00:01.000Z'') mc)),
      now_failed_save = (\<lambda>k. 2300),
      updateMessagePlan = None,
      duration = 1800\<rparr>"




text \<open>A send whose attached file cannot be read.\<close>

definition unreadable_file_env :: send_env where
  "unreadable_file_env =
     paris_env\<lparr>fileToBase64_all := Inl (JsError ''NotReadableError''), duration := 20\<rparr>"

text \<open>The hook while a send on the first chat is in flight.\<close>

definition busy_hook :: chat_hook where
  "busy_hook = idle_hook\<lparr>isSendingRef := True\<rparr>"

text \<open>
  A persisted message of the first chat, the pending records of a send on the first chat,
  and a pending record of the second chat.
\<close>

definition persisted_hello :: message where
  "persisted_hello = plain_message ''msg-0'' ''chat-1'' User ''hello''"

definition pending_question :: message where
  "pending_question = plain_message ''temp-user-1041'' ''chat-1'' User ''What's the capital of France?''"

definition pending_answer :: message where
  "pending_answer = plain_message ''temp-ai-1041'' ''chat-1'' Ai ''Par''"

definition pending_elsewhere :: message where
  "pending_elsewhere = plain_message ''temp-user-977'' ''chat-2'' User ''draw a cute cat''"

section \<open>Properties of the executors and of the routing loop\<close>

lemma onStreamChunk_fields [simp]:
  "finalResponseText (onStreamChunk ev st) = finalResponseText st"
  "executed (onStreamChunk ev st) = executed st"
  "currentAction (onStreamChunk ev st) = currentAction st"
  "currentPrompt (onStreamChunk ev st) = currentPrompt st"
  "routing_parameters (onStreamChunk ev st) = routing_parameters st"
  "metadataPayload (onStreamChunk ev st) = metadataPayload st"
  by (simp_all add: onStreamChunk_def)

lemma append_response_fields [simp]:
  "finalResponseText (append_response t st) = finalResponseText st @ t"
  "executed (append_response t st) = executed st"
  "currentAction (append_response t st) = currentAction st"
  "currentPrompt (append_response t st) = currentPrompt st"
  "routing_parameters (append_response t st) = routing_parameters st"
  by (simp_all add: append_response_def)

lemma push_grounding_fields [simp]:
  "finalResponseText (push_grounding gs st) = finalResponseText st"
  "executed (push_grounding gs st) = executed st"
  "currentAction (push_grounding gs st) = currentAction st"
  "currentPrompt (push_grounding gs st) = currentPrompt st"
  "routing_parameters (push_grounding gs st) = routing_parameters st"
  by (simp_all add: push_grounding_def)

lemma fold_onStreamChunk_fields [simp]:
  "finalResponseText (fold (\<lambda>m. onStreamChunk (f m)) ms st) = finalResponseText st"
  "executed (fold (\<lambda>m. onStreamChunk (f m)) ms st) = executed st"
  by (induction ms arbitrary: st) simp_all

lemma stream_plain_text:
  "finalResponseText (stream_plain cs st) = finalResponseText st @ chunk_texts cs"
  by (induction cs arbitrary: st) (simp_all add: chunk_texts_def split: option.splits)

lemma stream_plain_executed [simp]: "executed (stream_plain cs st) = executed st"
  by (induction cs arbitrary: st) (simp_all split: option.splits)

lemma stream_search_text:
  "finalResponseText (stream_search cs st) = finalResponseText st @ chunk_texts cs"
  by (induction cs arbitrary: st) (simp_all add: chunk_texts_def Let_def split: option.splits)

lemma stream_search_executed [simp]: "executed (stream_search cs st) = executed st"
  by (induction cs arbitrary: st) (simp_all add: Let_def split: option.splits)

lemma stream_simple_fst: "fst (stream_simple cs (g, st)) = g @ chunk_texts cs"
  by (induction cs arbitrary: g st) (simp_all add: chunk_texts_def split: option.splits)

lemma stream_simple_snd:
  "finalResponseText (snd (stream_simple cs (g, st))) = finalResponseText st @ chunk_texts cs"
  "executed (snd (stream_simple cs (g, st))) = executed st"
  by (induction cs arbitrary: g st) (simp_all add: chunk_texts_def Let_def split: option.splits)

lemma stream_simple_text:
  "stream_simple cs (g, st) = (g', st') \<Longrightarrow>
     g' = g @ chunk_texts cs \<and> finalResponseText st' = finalResponseText st @ chunk_texts cs
     \<and> executed st' = executed st"
  using stream_simple_fst [of cs g st] stream_simple_snd [of cs g st] by simp

lemma msg_text_result_message [simp]: "msg_text (result_message inp st) = finalResponseText st"
  by (simp add: result_message_def)

lemma exec_SEARCH_ok: "exec_SEARCH E inp st = (fl, st') \<Longrightarrow> step_ok inp st fl st' \<and> fl \<noteq> Continue"
  by (auto simp: exec_SEARCH_def step_ok_def Let_def stream_search_text finish_stream_def split: prod.splits option.splits)

lemma exec_DEEP_SEARCH_ok: "exec_DEEP_SEARCH E inp st = (fl, st') \<Longrightarrow> step_ok inp st fl st' \<and> fl \<noteq> Continue"
  by (auto simp: exec_DEEP_SEARCH_def step_ok_def Let_def split: prod.splits sum.splits)

lemma exec_THINK_ok: "exec_THINK E inp st = (fl, st') \<Longrightarrow> step_ok inp st fl st' \<and> fl \<noteq> Continue"
  by (auto simp: exec_THINK_def step_ok_def Let_def stream_plain_text finish_stream_def split: prod.splits option.splits)

lemma exec_IMAGE_ok: "exec_IMAGE E inp st = (fl, st') \<Longrightarrow> step_ok inp st fl st' \<and> fl \<noteq> Continue"
  by (auto simp: exec_IMAGE_def step_ok_def Let_def split: prod.splits sum.splits)

lemma exec_CANVAS_ok: "exec_CANVAS E inp st = (fl, st') \<Longrightarrow> step_ok inp st fl st' \<and> fl \<noteq> Continue"
  by (auto simp: exec_CANVAS_def step_ok_def Let_def stream_plain_text finish_stream_def split: prod.splits option.splits)

lemma exec_PROJECT_ok: "exec_PROJECT E inp st = (fl, st') \<Longrightarrow> step_ok inp st fl st' \<and> fl \<noteq> Continue"
  by (auto simp: exec_PROJECT_def step_ok_def Let_def split: prod.splits sum.splits)

lemma exec_STUDY_ok: "exec_STUDY E inp st = (fl, st') \<Longrightarrow> step_ok inp st fl st' \<and> fl \<noteq> Continue"
  by (auto simp: exec_STUDY_def step_ok_def Let_def stream_plain_text finish_stream_def split: prod.splits option.splits)

lemma exec_SIMPLE_ok: "exec_SIMPLE E inp st = (fl, st') \<Longrightarrow> step_ok inp st fl st'"
  by (auto simp: exec_SIMPLE_def step_ok_def Let_def split: prod.splits option.splits if_splits dest!: stream_simple_text)

lemma tag_detection_not_SIMPLE: "tag_detection p g = Some (a, q) \<Longrightarrow> a \<noteq> SIMPLE"
  by (auto simp: tag_detection_def split: option.splits)

lemma exec_SIMPLE_Continue:
  assumes "exec_SIMPLE E inp st = (Continue, st')"
  shows "\<exists>gen. finalResponseText st' = finalResponseText st @ gen
           \<and> tag_detection (prompt inp) gen = Some (currentAction st', currentPrompt st')"
proof -
  obtain chunks failure where g: "generateContentStream E SIMPLE (currentPrompt st) = (chunks, failure)"
    by (cases "generateContentStream E SIMPLE (currentPrompt st)")
  obtain gen st1 where s: "stream_simple chunks ([], st) = (gen, st1)"
    by (cases "stream_simple chunks ([], st)")
  from stream_simple_text [OF s] have t: "gen = chunk_texts chunks"
    "finalResponseText st1 = finalResponseText st @ chunk_texts chunks" by simp_all
  from assms g s obtain a p where d: "tag_detection (prompt inp) gen = Some (a, p)"
    and st': "st' = st1\<lparr>currentAction := a, currentPrompt := p,
                 routing_parameters := (if a = IMAGE then Some p else routing_parameters st1)\<rparr>"
    by (auto simp: exec_SIMPLE_def Let_def split: option.splits if_splits)
  from d st' t show ?thesis by auto
qed

lemma execute_ok:
  assumes "execute E inp st = (fl, st')"
  shows "step_ok inp st fl st'"
  using assms
  by (cases "currentAction st")
     (auto simp: execute_def dest: exec_SEARCH_ok exec_DEEP_SEARCH_ok exec_THINK_ok exec_IMAGE_ok
        exec_CANVAS_ok exec_PROJECT_ok exec_STUDY_ok exec_SIMPLE_ok)

lemma execute_Continue:
  assumes "execute E inp st = (Continue, st')"
  shows "currentAction st = SIMPLE \<and> currentAction st' \<noteq> SIMPLE"
proof -
  have a: "currentAction st = SIMPLE"
    using assms
    by (cases "currentAction st")
       (auto simp: execute_def dest: exec_SEARCH_ok exec_DEEP_SEARCH_ok exec_THINK_ok exec_IMAGE_ok
          exec_CANVAS_ok exec_PROJECT_ok exec_STUDY_ok)
  with assms have "exec_SIMPLE E inp st = (Continue, st')" by (simp add: execute_def)
  from exec_SIMPLE_Continue [OF this] tag_detection_not_SIMPLE a show ?thesis by blast
qed

lemma iteration_ok:
  assumes "iteration E inp st = (fl, st')"
  shows "prefix (finalResponseText st) (finalResponseText st')"
    and "executed st' = executed st @ [currentAction st]"
    and "fl = Return m \<Longrightarrow> msg_text m = finalResponseText st'"
  using execute_ok [OF assms [unfolded iteration_def]] by (simp_all add: step_ok_def)

lemma iteration_Continue:
  assumes "iteration E inp st = (Continue, st')"
  shows "currentAction st = SIMPLE" and "currentAction st' \<noteq> SIMPLE"
    and "\<exists>gen. finalResponseText st' = finalResponseText st @ gen
           \<and> tag_detection (prompt inp) gen = Some (currentAction st', currentPrompt st')"
proof -
  let ?st0 = "st\<lparr>executed := executed st @ [currentAction st]\<rparr>"
  from assms have e: "execute E inp ?st0 = (Continue, st')" by (simp add: iteration_def)
  from execute_Continue [OF e] show "currentAction st = SIMPLE" "currentAction st' \<noteq> SIMPLE"
    by simp_all
  then have "exec_SIMPLE E inp ?st0 = (Continue, st')" using e by (simp add: execute_def)
  from exec_SIMPLE_Continue [OF this]
  show "\<exists>gen. finalResponseText st' = finalResponseText st @ gen
           \<and> tag_detection (prompt inp) gen = Some (currentAction st', currentPrompt st')"
    by simp
qed

lemma routing_loop_exit:
  "MAX_LOOPS \<le> n \<Longrightarrow> routing_loop E inp n st = (Inr (result_message inp st), st)"
  by (subst routing_loop.simps) simp

lemma routing_loop_Return:
  "n < MAX_LOOPS \<Longrightarrow> iteration E inp st = (Return m, st') \<Longrightarrow>
     routing_loop E inp n st = (Inr m, st')"
  by (subst routing_loop.simps) simp

lemma routing_loop_Throw:
  "n < MAX_LOOPS \<Longrightarrow> iteration E inp st = (Throw e, st') \<Longrightarrow>
     routing_loop E inp n st = (Inl e, st')"
  by (subst routing_loop.simps) simp

lemma routing_loop_Continue:
  "n < MAX_LOOPS \<Longrightarrow> iteration E inp st = (Continue, st') \<Longrightarrow>
     routing_loop E inp n st = routing_loop E inp (n + 1) st'"
  by (subst routing_loop.simps) simp

text \<open>
  The invariant of the loop, by induction along its recursion: the accumulated text only
  grows, at most \<open>MAX_LOOPS - n\<close> executors are entered from iteration \<open>n\<close> on, and a
  returned message carries the accumulated text.
\<close>

lemma routing_loop_invariant:
  "routing_loop E inp n st = (res, st') \<Longrightarrow>
     prefix (finalResponseText st) (finalResponseText st')
     \<and> length (executed st') \<le> length (executed st) + (MAX_LOOPS - n)
     \<and> (\<forall>m. res = Inr m \<longrightarrow> msg_text m = finalResponseText st')"
proof (induction E inp n st rule: routing_loop.induct)
  case (1 E inp loopCount st)
  show ?case
  proof (cases "loopCount < MAX_LOOPS")
    case False
    with "1.prems" show ?thesis by (auto simp: routing_loop_exit)
  next
    case True
    obtain fl st1 where e: "iteration E inp st = (fl, st1)" by (cases "iteration E inp st")
    note ok = iteration_ok [OF e]
    show ?thesis
    proof (cases fl)
      case (Return m)
      with "1.prems" True e ok show ?thesis by (auto simp: routing_loop_Return)
    next
      case (Throw err)
      with "1.prems" True e ok show ?thesis by (auto simp: routing_loop_Throw)
    next
      case Continue
      with "1.prems" True e have "routing_loop E inp (loopCount + 1) st1 = (res, st')"
        by (simp add: routing_loop_Continue)
      from "1.IH" [OF True e [symmetric] _ this] Continue
      have "prefix (finalResponseText st1) (finalResponseText st')"
        and "length (executed st') \<le> length (executed st1) + (MAX_LOOPS - (loopCount + 1))"
        and "\<forall>m. res = Inr m \<longrightarrow> msg_text m = finalResponseText st'"
        by simp_all
      with ok True show ?thesis by (auto intro: prefix_order.trans)
    qed
  qed
qed

lemma agent_body_executed: "length (snd (agent_body E inp)) \<le> MAX_LOOPS"
proof -
  have "length (executed st') \<le> MAX_LOOPS"
    if "routing_loop E inp 0 (initial_state inp r) = (res, st')" for r res st'
    using routing_loop_invariant [OF that] by (simp add: initial_state_def)
  then show ?thesis
    by (auto simp: agent_body_def Let_def split: sum.splits prod.splits)
qed

lemma exec_IMAGE_returns:
  "\<exists>m st'. exec_IMAGE E inp st = (Return m, st') \<and> prefix (finalResponseText st) (msg_text m)"
  by (auto simp: exec_IMAGE_def Let_def split: sum.splits)

lemma iteration_not_Continue:
  "currentAction st \<noteq> SIMPLE \<Longrightarrow> iteration E inp st \<noteq> (Continue, st')"
  using iteration_Continue(1) by blast

lemma routing_loop_second_Return:
  assumes "n + 1 < MAX_LOOPS" and "iteration E inp st = (Continue, st1)"
      and "iteration E inp st1 = (Return m, st2)"
  shows "routing_loop E inp n st = (Inr m, st2)"
  using assms by (simp add: routing_loop_Continue routing_loop_Return)

lemma routing_loop_second_Throw:
  assumes "n + 1 < MAX_LOOPS" and "iteration E inp st = (Continue, st1)"
      and "iteration E inp st1 = (Throw e, st2)"
  shows "routing_loop E inp n st = (Inl e, st2)"
  using assms by (simp add: routing_loop_Continue routing_loop_Throw)

lemma agent_body_loop:
  assumes "route E (prompt inp) (file_count inp) = Inr r" and "getContext E = Inr memoryContext"
  shows "agent_body E inp = (fst (routing_loop E inp 0 (initial_state inp r)),
                             executed (snd (routing_loop E inp 0 (initial_state inp r))))"
  using assms by (simp add: agent_body_def file_count_def Let_def case_prod_unfold)

lemma initial_state_fields [simp]:
  "finalResponseText (initial_state inp r) = []"
  "executed (initial_state inp r) = []"
  "currentAction (initial_state inp r) = route_action r"
  by (simp_all add: initial_state_def)

lemma runAutonomousAgent_Inl:
  "fst (agent_body E inp) = Inl e \<Longrightarrow> runAutonomousAgent E inp = [error_message E inp e]"
  by (simp add: runAutonomousAgent_def)

lemma runAutonomousAgent_Inr:
  "fst (agent_body E inp) = Inr m \<Longrightarrow> runAutonomousAgent E inp = [m]"
  by (simp add: runAutonomousAgent_def)

lemma exec_IMAGE_failure:
  assumes "generateImage E (image_prompt st) = Inl err"
  shows "\<exists>st'. exec_IMAGE E inp st = (Return (result_message inp st'), st')
           \<and> finalResponseText st' = finalResponseText st @ image_failure_note err"
  using assms
  by (auto simp: exec_IMAGE_def image_prompt_def image_failure_note_def Let_def
        split: option.splits if_splits)

lemma exec_IMAGE_success:
  assumes "generateImage E (image_prompt st) = Inr b"
  shows "\<exists>st'. exec_IMAGE E inp st
                 = (Return ((result_message inp st')
                      \<lparr>image_base64 := Some b, imageStatus := Some ''complete''\<rparr>), st')
           \<and> finalResponseText st' = finalResponseText st"
  using assms
  by (auto simp: exec_IMAGE_def image_prompt_def Let_def split: option.splits if_splits)

lemma exec_SEARCH_throws:
  "(fst (exec_SEARCH E inp st) = Throw e)
     = (snd (generateContentStream E SEARCH (currentPrompt st)) = Some e)"
  by (auto simp: exec_SEARCH_def finish_stream_def Let_def case_prod_unfold split: option.splits)

lemma exec_CANVAS_throws:
  "(fst (exec_CANVAS E inp st) = Throw e)
     = (snd (generateContentStream E CANVAS (currentPrompt st)) = Some e)"
  by (auto simp: exec_CANVAS_def finish_stream_def Let_def case_prod_unfold split: option.splits)

lemma exec_STUDY_throws:
  "(fst (exec_STUDY E inp st) = Throw e)
     = (snd (generateContentStream E STUDY (currentPrompt st)) = Some e)"
  by (auto simp: exec_STUDY_def finish_stream_def Let_def case_prod_unfold split: option.splits)

lemma exec_THINK_throws:
  "(fst (exec_THINK E inp st) = Throw e)
     = ((case incrementThinkingCount E of
           Some e' \<Rightarrow> Some e'
         | None \<Rightarrow> snd (generateContentStream E THINK (currentPrompt st))) = Some e)"
  by (auto simp: exec_THINK_def finish_stream_def Let_def case_prod_unfold split: option.splits)

lemma exec_DEEP_SEARCH_throws:
  "(fst (exec_DEEP_SEARCH E inp st) = Throw e)
     = ((case snd (deepResearch E (currentPrompt st)) of Inl e' \<Rightarrow> Some e' | Inr _ \<Rightarrow> None) = Some e)"
  by (auto simp: exec_DEEP_SEARCH_def Let_def case_prod_unfold split: sum.splits)

lemma exec_PROJECT_throws:
  "(fst (exec_PROJECT E inp st) = Throw e)
     = ((case generateContent E (currentPrompt st) of Inl e' \<Rightarrow> Some e' | Inr _ \<Rightarrow> None) = Some e)"
  by (auto simp: exec_PROJECT_def Let_def split: sum.splits)

lemma exec_IMAGE_throws: "fst (exec_IMAGE E inp st) \<noteq> Throw e"
  by (auto simp: exec_IMAGE_def Let_def split: sum.splits)

lemma exec_SIMPLE_throws:
  "(fst (exec_SIMPLE E inp st) = Throw e)
     = ((case read_files E (case files inp of Some fs \<Rightarrow> fs | None \<Rightarrow> []) of
           Some e' \<Rightarrow> Some e'
         | None \<Rightarrow> snd (generateContentStream E SIMPLE (currentPrompt st))) = Some e)"
  by (auto simp: exec_SIMPLE_def Let_def case_prod_unfold split: option.splits)

lemma iteration_throws:
  "(fst (iteration E inp st) = Throw e) = (backend_failure E inp st = Some e)"
  by (cases "currentAction st")
     (simp_all add: iteration_def execute_def backend_failure_def exec_SEARCH_throws
        exec_CANVAS_throws exec_STUDY_throws exec_THINK_throws exec_DEEP_SEARCH_throws
        exec_PROJECT_throws exec_IMAGE_throws exec_SIMPLE_throws
      cong: option.case_cong)

lemma image_prompt_executed: "image_prompt (st\<lparr>executed := x\<rparr>) = image_prompt st"
  by (cases "routing_parameters st") (simp_all add: image_prompt_def)

text \<open>The text that a re-routing SIMPLE iteration appends is the text of its stream.\<close>

lemma iteration_Continue_text:
  assumes "iteration E inp st = (Continue, st')"
  shows "finalResponseText st'
           = finalResponseText st @ chunk_texts (fst (generateContentStream E SIMPLE (currentPrompt st)))"
    and "tag_detection (prompt inp) (chunk_texts (fst (generateContentStream E SIMPLE (currentPrompt st))))
           = Some (currentAction st', currentPrompt st')"
proof -
  let ?st = "st\<lparr>executed := executed st @ [currentAction st]\<rparr>"
  from assms have e: "execute E inp ?st = (Continue, st')" by (simp add: iteration_def)
  from iteration_Continue(1) [OF assms] e have x: "exec_SIMPLE E inp ?st = (Continue, st')"
    by (simp add: execute_def)
  obtain chunks failure where g: "generateContentStream E SIMPLE (currentPrompt st) = (chunks, failure)"
    by (cases "generateContentStream E SIMPLE (currentPrompt st)")
  obtain gen st1 where s: "stream_simple chunks ([], ?st) = (gen, st1)"
    by (cases "stream_simple chunks ([], ?st)")
  from stream_simple_text [OF s] have t: "gen = chunk_texts chunks"
    "finalResponseText st1 = finalResponseText st @ chunk_texts chunks" by simp_all
  from x g s obtain a p where d: "tag_detection (prompt inp) gen = Some (a, p)"
    and st': "st' = st1\<lparr>currentAction := a, currentPrompt := p,
                 routing_parameters := (if a = IMAGE then Some p else routing_parameters st1)\<rparr>"
    by (auto simp: exec_SIMPLE_def Let_def split: option.splits if_splits)
  from d st' t g show "finalResponseText st'
           = finalResponseText st @ chunk_texts (fst (generateContentStream E SIMPLE (currentPrompt st)))"
    by simp
  from d st' t g show "tag_detection (prompt inp) (chunk_texts (fst (generateContentStream E SIMPLE (currentPrompt st))))
           = Some (currentAction st', currentPrompt st')"
    by simp
qed

section \<open>Properties of the matcher\<close>

lemma strip_literal_exact [simp]: "strip_literal False l (l @ r) = Some r"
  by (induction l) (simp_all add: canonicalize_def)

lemma strip_literal_False_iff: "strip_literal False l s = Some r \<longleftrightarrow> s = l @ r"
  by (induction False l s rule: strip_literal.induct) (auto simp: canonicalize_def)

lemma strip_literal_ci:
  "length l' = length l \<Longrightarrow> map ascii_upper l' = map ascii_upper l \<Longrightarrow>
     strip_literal True l (l' @ r) = Some r"
proof (induction l arbitrary: l')
  case Nil
  then show ?case by simp
next
  case (Cons a l)
  then obtain b m where "l' = b # m" by (cases l') auto
  with Cons show ?case by (simp add: canonicalize_def)
qed

lemma regexp_match_found:
  "matcher ic pat s = Some g \<Longrightarrow> \<exists>g'. regexp_match ic pat (pre @ s) = Some g'"
proof (induction pre)
  case Nil
  then show ?case by (cases s) simp_all
next
  case (Cons c pre)
  then show ?case by (auto split: option.splits)
qed

lemma regexp_match_leftmost:
  "no_match_starts ic pat pre rest \<Longrightarrow> matcher ic pat rest = Some g \<Longrightarrow>
     regexp_match ic pat (pre @ rest) = Some g"
proof (induction pre)
  case Nil
  then show ?case by (cases rest) simp_all
next
  case (Cons c pre)
  then show ?case by simp
qed

lemma lazy_found:
  "list_all (\<lambda>c. \<not> line_terminator c) p \<Longrightarrow> strip_literal ic cl rest = Some r \<Longrightarrow>
     \<exists>q. matcher ic [LazyGroup, Lit cl] (p @ rest) = Some (Some q)"
proof (induction p)
  case Nil
  then show ?case by simp
next
  case (Cons c p)
  then obtain q where "matcher ic [LazyGroup, Lit cl] (p @ rest) = Some (Some q)" by auto
  with Cons.prems show ?case by (auto split: option.splits)
qed

lemma lazy_exact:
  "list_all (\<lambda>c. \<not> line_terminator c) p \<Longrightarrow> not_starting ic cl p rest \<Longrightarrow>
     strip_literal ic cl rest = Some r \<Longrightarrow>
     matcher ic [LazyGroup, Lit cl] (p @ rest) = Some (Some p)"
proof (induction p)
  case Nil
  then show ?case by simp
next
  case (Cons c p)
  then show ?case by simp
qed

lemma ws_plus_found:
  "ws \<noteq> [] \<Longrightarrow> list_all white_space ws \<Longrightarrow> matcher ic ps rest = Some g \<Longrightarrow>
     \<exists>g'. matcher ic (WsPlus # ps) (ws @ rest) = Some g'"
proof (induction ws)
  case Nil
  then show ?case by simp
next
  case (Cons c ws)
  show ?case
  proof (cases "ws = []")
    case True
    with Cons.prems show ?thesis by (auto split: option.splits)
  next
    case False
    with Cons obtain g' where "matcher ic (WsPlus # ps) (ws @ rest) = Some g'" by auto
    with Cons.prems show ?thesis by simp
  qed
qed

lemma ws_plus_stop:
  "rest = [] \<or> \<not> white_space (hd rest) \<Longrightarrow> matcher ic (WsPlus # ps) rest = None"
  by (cases rest) auto

lemma ws_plus_exact:
  "ws \<noteq> [] \<Longrightarrow> list_all white_space ws \<Longrightarrow> rest = [] \<or> \<not> white_space (hd rest) \<Longrightarrow>
     matcher ic ps rest = Some g \<Longrightarrow> matcher ic (WsPlus # ps) (ws @ rest) = Some g"
proof (induction ws)
  case Nil
  then show ?case by simp
next
  case (Cons c ws)
  show ?case
  proof (cases "ws = []")
    case True
    with Cons.prems ws_plus_stop [of rest ic ps] show ?thesis by simp
  next
    case False
    with Cons have "matcher ic (WsPlus # ps) (ws @ rest) = Some g" by auto
    with Cons.prems show ?thesis by simp
  qed
qed

lemma strip_literal_ci':
  "map ascii_upper l' = map ascii_upper l \<Longrightarrow> strip_literal True l (l' @ r) = Some r"
  using strip_literal_ci [of l' l r] map_eq_imp_length_eq [of ascii_upper l' ascii_upper l] by simp

lemma ascii_upper_white_space: "white_space c \<Longrightarrow> ascii_upper c = c"
  unfolding white_space_def by (elim disjE) (simp_all add: ascii_upper_def)

lemma ascii_upper_lt [simp]: "ascii_upper CHR ''<'' = CHR ''<''"
  by (simp add: ascii_upper_def)

lemma deep_cue_marker_found:
  assumes "map ascii_upper opening = map ascii_upper ''<SEARCH>deep''"
      and "ws \<noteq> []" and "list_all white_space ws"
      and "list_all (\<lambda>c. \<not> line_terminator c) payload"
      and "map ascii_upper closing = map ascii_upper ''</SEARCH>''"
  shows "\<exists>g. regexp_match True deep_cue_pattern (pre @ opening @ ws @ payload @ closing @ post) = Some g"
proof -
  have "strip_literal True ''</SEARCH>'' (closing @ post) = Some post"
    using assms(5) by (rule strip_literal_ci')
  from lazy_found [OF assms(4) this] obtain q
    where "matcher True [LazyGroup, Lit ''</SEARCH>''] (payload @ closing @ post) = Some (Some q)"
    by blast
  from ws_plus_found [OF assms(2,3) this] obtain g
    where "matcher True [WsPlus, LazyGroup, Lit ''</SEARCH>''] (ws @ payload @ closing @ post) = Some g"
    by blast
  moreover have "strip_literal True ''<SEARCH>deep'' (opening @ ws @ payload @ closing @ post)
                   = Some (ws @ payload @ closing @ post)"
    using assms(1) by (rule strip_literal_ci')
  ultimately have "matcher True deep_cue_pattern (opening @ ws @ payload @ closing @ post) = Some g"
    by (simp add: deep_cue_pattern_def)
  from regexp_match_found [OF this] show ?thesis .
qed

lemma deep_cue_marker_exact:
  assumes "map ascii_upper opening = map ascii_upper ''<SEARCH>deep''"
      and "ws \<noteq> []" and "list_all white_space ws"
      and "list_all (\<lambda>c. \<not> line_terminator c) payload"
      and "map ascii_upper closing = map ascii_upper ''</SEARCH>''"
      and "no_match_starts True deep_cue_pattern pre (opening @ ws @ payload @ closing @ post)"
      and "payload = [] \<or> \<not> white_space (hd payload)"
      and "not_starting True ''</SEARCH>'' payload (closing @ post)"
  shows "regexp_match True deep_cue_pattern (pre @ opening @ ws @ payload @ closing @ post)
           = Some (Some payload)"
proof -
  have c: "strip_literal True ''</SEARCH>'' (closing @ post) = Some post"
    using assms(5) by (rule strip_literal_ci')
  have l: "matcher True [LazyGroup, Lit ''</SEARCH>''] (payload @ closing @ post) = Some (Some payload)"
    by (rule lazy_exact [OF assms(4) assms(8) c])
  have stop: "payload @ closing @ post = [] \<or> \<not> white_space (hd (payload @ closing @ post))"
  proof (cases payload)
    case Nil
    from assms(5) obtain a cl where cl: "closing = a # cl" and a: "ascii_upper a = CHR ''<''"
      by (cases closing) auto
    have "\<not> white_space a"
    proof
      assume w: "white_space a"
      from a ascii_upper_white_space [OF w] have "a = CHR ''<''" by simp
      with w show False by (simp add: white_space_def)
    qed
    with Nil cl show ?thesis by simp
  next
    case (Cons a p)
    with assms(7) show ?thesis by simp
  qed
  have "matcher True [WsPlus, LazyGroup, Lit ''</SEARCH>''] (ws @ payload @ closing @ post)
          = Some (Some payload)"
    by (rule ws_plus_exact [OF assms(2,3) stop l])
  moreover have "strip_literal True ''<SEARCH>deep'' (opening @ ws @ payload @ closing @ post)
                   = Some (ws @ payload @ closing @ post)"
    using assms(1) by (rule strip_literal_ci')
  ultimately have "matcher True deep_cue_pattern (opening @ ws @ payload @ closing @ post)
                     = Some (Some payload)"
    by (simp add: deep_cue_pattern_def)
  from regexp_match_leftmost [OF assms(6) this] show ?thesis .
qed

lemma regexp_match_position:
  "regexp_match ic pat s = Some g \<Longrightarrow> \<exists>k. matcher ic pat (drop k s) = Some g"
proof (induction s)
  case Nil
  then show ?case by simp
next
  case (Cons c s)
  show ?case
  proof (cases "matcher ic pat (c # s)")
    case None
    with Cons obtain k where "matcher ic pat (drop k s) = Some g" by auto
    then have "matcher ic pat (drop (Suc k) (c # s)) = Some g" by simp
    then show ?thesis by blast
  next
    case (Some g')
    with Cons.prems have "matcher ic pat (drop 0 (c # s)) = Some g" by simp
    then show ?thesis by blast
  qed
qed

lemma lazy_close_sublist:
  "matcher False [LazyGroup, Lit cl] s = Some g \<Longrightarrow> sublist cl s"
proof (induction s arbitrary: g)
  case Nil
  then show ?case
    by (auto simp: strip_literal_False_iff split: option.splits)
next
  case (Cons c s)
  show ?case
  proof (cases "strip_literal False cl (c # s)")
    case (Some r)
    then have "c # s = cl @ r" by (simp add: strip_literal_False_iff)
    then show ?thesis by (metis sublist_append_rightI)
  next
    case None
    with Cons.prems obtain g' where "matcher False [LazyGroup, Lit cl] s = Some g'"
      by (auto split: if_splits)
    from Cons.IH [OF this] show ?thesis by (simp add: sublist_Cons_right)
  qed
qed

lemma tag_pattern_needs_close:
  assumes "regexp_match False (tag_pattern name) s = Some g"
  shows "sublist (''</'' @ name @ ''>'') s"
proof -
  from regexp_match_position [OF assms] obtain k
    where m: "matcher False (tag_pattern name) (drop k s) = Some g" by blast
  then obtain r where "strip_literal False (''<'' @ name @ ''>'') (drop k s) = Some r"
    and "matcher False [LazyGroup, Lit (''</'' @ name @ ''>'')] r = Some g"
    by (auto simp: tag_pattern_def split: option.splits)
  then have "drop k s = (''<'' @ name @ ''>'') @ r" and "sublist (''</'' @ name @ ''>'') r"
    using lazy_close_sublist by (simp_all add: strip_literal_False_iff)
  then have "sublist (''</'' @ name @ ''>'') (drop k s)"
    by (metis sublist_append_leftI sublist_order.order_trans)
  then show ?thesis
    by (meson sublist_drop sublist_order.order_trans)
qed

lemma literal_occurs:
  assumes "sublist l s"
  shows "regexp_match False [Lit l] s = Some None"
proof -
  from assms obtain pre post where s: "s = pre @ l @ post" by (auto simp: sublist_def)
  have "matcher False [Lit l] (l @ post) = Some None" by simp
  from regexp_match_found [OF this, of pre] s obtain g
    where g: "regexp_match False [Lit l] s = Some g" by auto
  from regexp_match_position [OF g] obtain k where "matcher False [Lit l] (drop k s) = Some g"
    by blast
  then have "g = None" by (auto split: option.splits)
  with g show ?thesis by simp
qed

lemma tag_marker_exact:
  assumes "list_all (\<lambda>c. \<not> line_terminator c) payload"
      and "not_starting False (''</'' @ name @ ''>'') payload ((''</'' @ name @ ''>'') @ post)"
      and "no_match_starts False (tag_pattern name) pre
             ((''<'' @ name @ ''>'') @ payload @ (''</'' @ name @ ''>'') @ post)"
  shows "regexp_match False (tag_pattern name)
           (pre @ (''<'' @ name @ ''>'') @ payload @ (''</'' @ name @ ''>'') @ post)
         = Some (Some payload)"
proof -
  have "strip_literal False (''</'' @ name @ ''>'') ((''</'' @ name @ ''>'') @ post) = Some post"
    by (rule strip_literal_exact)
  from lazy_exact [OF assms(1,2) this]
  have "matcher False [LazyGroup, Lit (''</'' @ name @ ''>'')]
          (payload @ (''</'' @ name @ ''>'') @ post) = Some (Some payload)" .
  moreover have "strip_literal False (''<'' @ name @ ''>'')
                   ((''<'' @ name @ ''>'') @ payload @ (''</'' @ name @ ''>'') @ post)
                 = Some (payload @ (''</'' @ name @ ''>'') @ post)"
    by (rule strip_literal_exact)
  ultimately have "matcher False (tag_pattern name)
                     ((''<'' @ name @ ''>'') @ payload @ (''</'' @ name @ ''>'') @ post)
                   = Some (Some payload)"
    by (simp add: tag_pattern_def del: append.simps append_assoc)
  from regexp_match_leftmost [OF assms(3) this] show ?thesis .
qed

text \<open>A match leaves the opening literal of its pattern in the text.\<close>

lemma strip_literal_split:
  "strip_literal ic l s = Some r \<Longrightarrow>
     \<exists>t. s = t @ r \<and> map (canonicalize ic) t = map (canonicalize ic) l"
proof (induction ic l s rule: strip_literal.induct)
  case (1 ic s)
  then show ?case by simp
next
  case (2 ic p ps)
  then show ?case by simp
next
  case (3 ic p ps c cs)
  from "3.prems" have eq: "canonicalize ic p = canonicalize ic c"
    and rest: "strip_literal ic ps cs = Some r"
    by (simp_all split: if_splits)
  from "3.IH" [OF eq rest] obtain t
    where "cs = t @ r" "map (canonicalize ic) t = map (canonicalize ic) ps" by blast
  with eq have "c # cs = (c # t) @ r \<and> map (canonicalize ic) (c # t) = map (canonicalize ic) (p # ps)"
    by simp
  then show ?case by blast
qed

lemma opening_literal_occurs:
  assumes "regexp_match ic (Lit l # ps) s = Some g"
  shows "\<exists>t. sublist t s \<and> map (canonicalize ic) t = map (canonicalize ic) l"
proof -
  from regexp_match_position [OF assms] obtain k
    where "matcher ic (Lit l # ps) (drop k s) = Some g" by blast
  then obtain r where "strip_literal ic l (drop k s) = Some r"
    by (auto split: option.splits)
  from strip_literal_split [OF this] obtain t
    where d: "drop k s = t @ r" and c: "map (canonicalize ic) t = map (canonicalize ic) l" by blast
  have "s = take k s @ drop k s" by simp
  with d have "s = take k s @ t @ r" by simp
  then have "sublist t s" unfolding sublist_def by blast
  with c show ?thesis by blast
qed

lemma map_canonicalize:
  "map (canonicalize False) t = t"
  "map (canonicalize True) t = map ascii_upper t"
  by (induction t) (simp_all add: canonicalize_def)

lemma opening_tag_occurs:
  assumes "regexp_match False (Lit l # ps) s = Some g"
  shows "sublist l s"
  using opening_literal_occurs [OF assms] by (simp add: map_canonicalize)

lemma tag_detection_has_marker:
  assumes "tag_detection p gen = Some (a, q)"
  shows "has_marker a gen"
proof -
  have tag: "\<And>name g. regexp_match False (tag_pattern name) gen = Some g \<Longrightarrow>
               sublist (''<'' @ name @ ''>'') gen"
    unfolding tag_pattern_def by (rule opening_tag_occurs)
  have deep_ok: "\<And>g. deepMatch gen = Some g \<Longrightarrow> has_marker DEEP_SEARCH gen"
  proof -
    fix g assume "deepMatch gen = Some g"
    then consider "regexp_match False (tag_pattern ''DEEP'') gen = Some g"
      | "regexp_match True deep_cue_pattern gen = Some g"
      by (auto simp: deepMatch_def or_else_def split: option.splits)
    then show "has_marker DEEP_SEARCH gen"
    proof cases
      case 1
      from tag [OF this] show ?thesis by (simp add: has_marker_def)
    next
      case 2
      then obtain t where "sublist t gen"
        and "map (canonicalize True) t = map (canonicalize True) ''<SEARCH>deep''"
        unfolding deep_cue_pattern_def using opening_literal_occurs by blast
      moreover have "map (canonicalize True) ''<SEARCH>deep'' = ''<SEARCH>DEEP''"
        by (simp add: canonicalize_def ascii_upper_def)
      moreover have "map (canonicalize True) t = map ascii_upper t"
        by (rule map_canonicalize(2))
      ultimately have "sublist t gen \<and> map ascii_upper t = ''<SEARCH>DEEP''" by simp
      then show ?thesis unfolding has_marker_def by auto
    qed
  qed
  have think_ok: "\<And>g. thinkMatch gen = Some g \<Longrightarrow> has_marker THINK gen"
  proof -
    fix g assume "thinkMatch gen = Some g"
    then consider "regexp_match False (tag_pattern ''THINK'') gen = Some g"
      | "regexp_match False [Lit ''<THINK>''] gen = Some g"
      by (auto simp: thinkMatch_def or_else_def split: option.splits)
    then show "has_marker THINK gen"
    proof cases
      case 1
      from tag [OF this] show ?thesis by (simp add: has_marker_def)
    next
      case 2
      from opening_tag_occurs [OF this] show ?thesis by (simp add: has_marker_def)
    qed
  qed
  from assms consider
      (deep) g where "deepMatch gen = Some g" "a = DEEP_SEARCH"
    | (search) g where "searchMatch gen = Some g" "a = SEARCH"
    | (think) g where "thinkMatch gen = Some g" "a = THINK"
    | (image) g where "imageMatch gen = Some g" "a = IMAGE"
    | (project) g where "projectMatch gen = Some g" "a = PROJECT"
    | (canvas) g where "canvasMatch gen = Some g" "a = CANVAS"
    | (study) g where "studyMatch gen = Some g" "a = STUDY"
    unfolding tag_detection_def by (auto split: option.splits)
  then show ?thesis
  proof cases
    case deep
    then show ?thesis using deep_ok by simp
  next
    case search
    then show ?thesis using tag [of "''SEARCH''" g] by (simp add: has_marker_def searchMatch_def)
  next
    case think
    then show ?thesis using think_ok by simp
  next
    case image
    then show ?thesis using tag [of "''IMAGE''" g] by (simp add: has_marker_def imageMatch_def)
  next
    case project
    then show ?thesis using tag [of "''PROJECT''" g] by (simp add: has_marker_def projectMatch_def)
  next
    case canvas
    then show ?thesis using tag [of "''CANVAS''" g] by (simp add: has_marker_def canvasMatch_def)
  next
    case study
    then show ?thesis using tag [of "''STUDY''" g] by (simp add: has_marker_def studyMatch_def)
  qed
qed

lemma has_marker_sublist:
  assumes "has_marker a s" and "sublist s s'"
  shows "has_marker a s'"
proof -
  have tr: "\<And>t. sublist t s \<Longrightarrow> sublist t s'"
    using assms(2) by (rule sublist_order.order_trans [rotated])
  from assms(1) show ?thesis
    unfolding has_marker_def by (cases a) (auto intro: tr)
qed

section \<open>Properties of the chat hook\<close>

lemma list_ex_id: "list_ex (\<lambda>h. id h = i) hs \<longleftrightarrow> i \<in> id ` set hs"
  by (auto simp: list_ex_iff)

lemma merge_history_eq:
  "merge_history chatId history prev
     = history @ filter (\<lambda>p. chat_id p = chatId \<and> id p \<notin> id ` set history) prev"
  by (simp add: merge_history_def Let_def list_ex_id)

lemma setMessages_fields [simp]:
  "messages (setMessages f st) = f (messages st)"
  "isSendingRef (setMessages f st) = isSendingRef st"
  "release_timers (setMessages f st) = release_timers st"
  "toasts (setMessages f st) = toasts st"
  by (simp_all add: setMessages_def)

lemma addToast_fields [simp]:
  "messages (addToast msg kind st) = messages st"
  "isSendingRef (addToast msg kind st) = isSendingRef st"
  "release_timers (addToast msg kind st) = release_timers st"
  "toasts (addToast msg kind st) = toasts st @ [(msg, kind)]"
  by (simp_all add: addToast_def)

lemma on_chunks_fields:
  "isSendingRef (snd (on_chunks E tempId cs (t, st))) = isSendingRef st"
  "release_timers (snd (on_chunks E tempId cs (t, st))) = release_timers st"
  "toasts (snd (on_chunks E tempId cs (t, st))) = toasts st"
  by (induction cs arbitrary: t st) (simp_all add: Let_def)


lemma save_ai_message_fields:
  "isSendingRef (snd (save_ai_message E c ct k mc (saved, st))) = isSendingRef st"
  "release_timers (snd (save_ai_message E c ct k mc (saved, st))) = release_timers st"
  "messages (snd (save_ai_message E c ct k mc (saved, st))) = messages st"
  by (simp_all add: save_ai_message_def Let_def split: sum.splits)

lemma save_ai_messages_fields:
  "isSendingRef (snd (save_ai_messages E c ct k ms acc)) = isSendingRef (snd acc)"
  "release_timers (snd (save_ai_messages E c ct k ms acc)) = release_timers (snd acc)"
  "messages (snd (save_ai_messages E c ct k ms acc)) = messages (snd acc)"
proof (induction ms arbitrary: k acc)
  case Nil
  {
    case 1 show ?case by simp
  next
    case 2 show ?case by simp
  next
    case 3 show ?case by simp
  }
next
  case (Cons mc ms)
  {
    case 1 show ?case using Cons(1) save_ai_message_fields(1) by (cases acc) simp
  next
    case 2 show ?case using Cons(2) save_ai_message_fields(2) by (cases acc) simp
  next
    case 3 show ?case using Cons(3) save_ai_message_fields(3) by (cases acc) simp
  }
qed

lemma send_catch_fields [simp]:
  "isSendingRef (snd (send_catch tempId e st)) = isSendingRef st"
  "release_timers (snd (send_catch tempId e st)) = release_timers st"
  by (simp_all add: send_catch_def Let_def)

lemma optimistic_update_fields [simp]:
  "isSendingRef (optimistic_update E c d st) = isSendingRef st"
  "release_timers (optimistic_update E c d st) = release_timers st"
  "toasts (optimistic_update E c d st) = toasts st"
  by (simp_all add: optimistic_update_def Let_def)

lemma save_user_message_fields [simp]:
  "isSendingRef (save_user_message E st) = isSendingRef st"
  "release_timers (save_user_message E st) = release_timers st"
  "toasts (save_user_message E st) = toasts st"
  by (simp_all add: save_user_message_def split: sum.splits)

lemma persist_agent_result_fields [simp]:
  "isSendingRef (snd (persist_agent_result E c ct res st)) = isSendingRef st"
  "release_timers (snd (persist_agent_result E c ct res st)) = release_timers st"
  by (simp_all add: persist_agent_result_def Let_def case_prod_unfold save_ai_messages_fields
        split: option.splits)

lemma send_try_latch:
  "isSendingRef (snd (send_try E u c txt fs st)) = (isSendingRef st \<and> \<not> reading_fails E fs)"
  "release_timers (snd (send_try E u c txt fs st)) = release_timers st"
  by (simp_all add: send_try_def reading_fails_def Let_def case_prod_unfold on_chunks_fields
        split: sum.splits option.splits list.splits)

lemma send_try_reading_fails:
  "reading_fails E fs \<Longrightarrow>
     send_try E u c txt fs st
       = (empty_result,
          (addToast ''Failed to read the attached file(s).'' ''error'' st)\<lparr>isSendingRef := False\<rparr>)"
  by (simp add: send_try_def reading_fails_def split: sum.splits option.splits list.splits)

lemma handleSendMessage_rejected:
  "isSendingRef st \<Longrightarrow> handleSendMessage E ctx txt fs chatToUse st = (empty_result, st)"
  by (simp add: handleSendMessage_def acquire_def)

lemma acquire_Some:
  "acquire ctx txt fs chatToUse st = Some st1 \<Longrightarrow>
     st1 = st\<lparr>isSendingRef := True\<rparr> \<and> \<not> isSendingRef st
     \<and> (\<exists>u c. user ctx = Some u \<and> chatToUse = Some c)"
  by (auto simp: acquire_def has_required_input_def split: if_splits)

lemma handleSendMessage_accepted:
  assumes "acquire ctx txt fs chatToUse st = Some st1"
  shows "\<exists>u c. user ctx = Some u \<and> chatToUse = Some c
           \<and> handleSendMessage E ctx txt fs chatToUse st
               = (fst (send_try E u c txt fs st1),
                  send_finally (elapse (duration E) (snd (send_try E u c txt fs st1))))"
  using assms acquire_Some [OF assms]
  by (auto simp: handleSendMessage_def case_prod_unfold Let_def)

lemma send_finally_fields [simp]:
  "isSendingRef (send_finally st) = isSendingRef st"
  "release_timers (send_finally st) = release_timers st @ [500]"
  "messages (send_finally st) = messages st"
  "toasts (send_finally st) = toasts st"
  by (simp_all add: send_finally_def)

lemma elapse_fields [simp]:
  "isSendingRef (elapse d st) = (isSendingRef st \<and> \<not> list_ex (\<lambda>t. t \<le> d) (release_timers st))"
  "release_timers (elapse d st) = map (\<lambda>t. t - d) (filter (\<lambda>t. d < t) (release_timers st))"
  "messages (elapse d st) = messages st"
  "toasts (elapse d st) = toasts st"
  by (simp_all add: elapse_def)






lemma fallback_message_fields [simp]:
  "id (fallback_message E c ct k mc) = ''failed-save-'' @ show_nat (now_failed_save E k)"
  "msg_text (fallback_message E c ct k mc) = final_content ct mc"
  "sender (fallback_message E c ct k mc) = Ai"
  "chat_id (fallback_message E c ct k mc) = chat_ref_id c"
  by (simp_all add: fallback_message_def with_id_def)









section \<open>The claims\<close>

text \<open>
  Claim C1. For every turn, whatever the collaborators answer and however often the SIMPLE
  executor asks for a re-route, the routing loop ends after at most \<open>MAX_LOOPS = 2\<close>
  executor invocations (the loop is a total function, and the list of executors it
  entered has at most two elements); and when the bound is reached, the loop ends the turn
  with a message that carries the text accumulated so far.
\<close>

theorem loop_bound:
  "length (snd (agent_body E inp)) \<le> MAX_LOOPS \<and> MAX_LOOPS = 2
   \<and> (\<forall>n st. MAX_LOOPS \<le> n \<longrightarrow>
         routing_loop E inp n st = (Inr (result_message inp st), st)
         \<and> msg_text (result_message inp st) = finalResponseText st)"
  using agent_body_executed routing_loop_exit by (simp add: MAX_LOOPS_def)

theorem loop_bound_witness:
  "snd (agent_body cat_env cat_input) = [SIMPLE, IMAGE]
   \<and> length (snd (agent_body cat_env cat_input)) \<le> MAX_LOOPS
   \<and> MAX_LOOPS \<le> 2
   \<and> routing_loop cat_env cat_input 2
        (initial_state cat_input \<lparr>route_action = SIMPLE, parameters_prompt = None\<rparr>)
      = (Inr (result_message cat_input
               (initial_state cat_input \<lparr>route_action = SIMPLE, parameters_prompt = None\<rparr>)),
         initial_state cat_input \<lparr>route_action = SIMPLE, parameters_prompt = None\<rparr>)"
proof -
  have run: "snd (agent_body cat_env cat_input) = [SIMPLE, IMAGE]"
    by code_simp
  have bound: "MAX_LOOPS \<le> 2"
    by (simp add: MAX_LOOPS_def)
  from loop_bound [of cat_env cat_input] bound run show ?thesis
    by blast
qed

text \<open>
  Claim C2 (as amended). Let the text generated by SIMPLE contain a search marker whose
  payload begins with the deep-research cue: the opening tag followed by \<^verbatim>\<open>deep\<close> (both in
  any letter case), white space, a payload without line terminators, and the closing tag
  (in any letter case). Then tag detection selects DEEP_SEARCH, never SEARCH, whatever
  plain search markers the text also contains: the deep-research-style markers are tested
  first. If the text has a \<^verbatim>\<open><DEEP>\<close> marker, the payload is the payload of that marker.
  Otherwise, if the deep-cued marker is the leftmost one, its payload does not begin with
  white space and no closing tag begins inside it, the payload is the remainder of the
  marker's payload after the cue and the white space.
\<close>

theorem deep_cue_wins:
  assumes "gen = pre @ opening @ ws @ payload @ closing @ post"
      and "map ascii_upper opening = map ascii_upper ''<SEARCH>deep''"
      and "ws \<noteq> []" and "list_all white_space ws"
      and "list_all (\<lambda>c. \<not> line_terminator c) payload"
      and "map ascii_upper closing = map ascii_upper ''</SEARCH>''"
  shows "(\<exists>q. tag_detection original gen = Some (DEEP_SEARCH, q))
         \<and> (\<forall>g. regexp_match False (tag_pattern ''DEEP'') gen = Some g \<longrightarrow>
                tag_detection original gen = Some (DEEP_SEARCH, group1 g))
         \<and> (regexp_match False (tag_pattern ''DEEP'') gen = None
              \<and> no_match_starts True deep_cue_pattern pre (opening @ ws @ payload @ closing @ post)
              \<and> (payload = [] \<or> \<not> white_space (hd payload))
              \<and> not_starting True ''</SEARCH>'' payload (closing @ post)
            \<longrightarrow> tag_detection original gen = Some (DEEP_SEARCH, payload))"
proof (intro conjI allI impI)
  from deep_cue_marker_found [OF assms(2-6), of pre post] assms(1)
  obtain g where "regexp_match True deep_cue_pattern gen = Some g" by auto
  then show "\<exists>q. tag_detection original gen = Some (DEEP_SEARCH, q)"
    by (simp add: tag_detection_def deepMatch_def or_else_def split: option.splits)
next
  fix g assume "regexp_match False (tag_pattern ''DEEP'') gen = Some g"
  then show "tag_detection original gen = Some (DEEP_SEARCH, group1 g)"
    by (simp add: tag_detection_def deepMatch_def or_else_def)
next
  assume h: "regexp_match False (tag_pattern ''DEEP'') gen = None
              \<and> no_match_starts True deep_cue_pattern pre (opening @ ws @ payload @ closing @ post)
              \<and> (payload = [] \<or> \<not> white_space (hd payload))
              \<and> not_starting True ''</SEARCH>'' payload (closing @ post)"
  then have "regexp_match True deep_cue_pattern gen = Some (Some payload)"
    using deep_cue_marker_exact [OF assms(2-6), of pre post] assms(1) by simp
  with h show "tag_detection original gen = Some (DEEP_SEARCH, payload)"
    by (simp add: tag_detection_def deepMatch_def or_else_def)
qed

text \<open>
  A text with a plain search marker first and a deep-cued one after it: the plain marker is
  what \<open>searchMatch\<close> finds, and the detection yields DEEP_SEARCH with the remainder after
  the cue. And a text with a \<^verbatim>\<open><DEEP>\<close> marker before a deep-cued search marker.
\<close>

theorem deep_cue_wins_witness:
  "searchMatch ''On it! <SEARCH>weather in Paris</SEARCH> <Search>Deep  quantum computing</search>''
     = Some (Some ''weather in Paris'')
   \<and> tag_detection ''compare them''
        ''On it! <SEARCH>weather in Paris</SEARCH> <Search>Deep  quantum computing</search>''
     = Some (DEEP_SEARCH, ''quantum computing'')
   \<and> tag_detection ''compare them'' ''<DEEP>llm agents</DEEP> <SEARCH>deep quantum computing</SEARCH>''
     = Some (DEEP_SEARCH, ''llm agents'')"
proof -
  let ?gen2 = "''<DEEP>llm agents</DEEP> <SEARCH>deep quantum computing</SEARCH>''"
  have gen2: "?gen2 = ''<DEEP>llm agents</DEEP> '' @ ''<SEARCH>deep'' @ '' '' @ ''quantum computing''
                        @ ''</SEARCH>'' @ []"
    by simp
  have ws2: "'' '' \<noteq> []" "list_all white_space '' ''"
    by code_simp+
  have deep2: "regexp_match False (tag_pattern ''DEEP'') ?gen2 = Some (Some ''llm agents'')"
    by code_simp
  have same: "map ascii_upper ''<SEARCH>deep'' = map ascii_upper ''<SEARCH>deep''"
             "map ascii_upper ''</SEARCH>'' = map ascii_upper ''</SEARCH>''"
    by simp_all
  let ?pre = "''On it! <SEARCH>weather in Paris</SEARCH> ''"
  let ?gen = "''On it! <SEARCH>weather in Paris</SEARCH> <Search>Deep  quantum computing</search>''"
  have plain: "searchMatch ?gen = Some (Some ''weather in Paris'')"
    by code_simp
  have gen: "?gen = ?pre @ ''<Search>Deep'' @ ''  '' @ ''quantum computing'' @ ''</search>'' @ []"
    by simp
  have opening_ok: "map ascii_upper ''<Search>Deep'' = map ascii_upper ''<SEARCH>deep''"
    by code_simp
  have ws: "''  '' \<noteq> []" "list_all white_space ''  ''"
    by code_simp+
  have payload: "list_all (\<lambda>c. \<not> line_terminator c) ''quantum computing''"
    by code_simp
  have closing_ok: "map ascii_upper ''</search>'' = map ascii_upper ''</SEARCH>''"
    by code_simp
  have no_deep: "regexp_match False (tag_pattern ''DEEP'') ?gen = None"
    by code_simp
  have leftmost: "no_match_starts True deep_cue_pattern ?pre
                    (''<Search>Deep'' @ ''  '' @ ''quantum computing'' @ ''</search>'' @ [])"
    by code_simp
  have start: "''quantum computing'' = [] \<or> \<not> white_space (hd ''quantum computing'')"
    by code_simp
  have inside: "not_starting True ''</SEARCH>'' ''quantum computing'' (''</search>'' @ [])"
    by code_simp
  from deep_cue_wins [OF gen opening_ok ws payload closing_ok, of "''compare them''"]
    no_deep leftmost start inside
  have first: "tag_detection ''compare them'' ?gen = Some (DEEP_SEARCH, ''quantum computing'')"
    by blast
  from deep_cue_wins [OF gen2 same(1) ws2 payload same(2), of "''compare them''"] deep2
  have "tag_detection ''compare them'' ?gen2 = Some (DEEP_SEARCH, group1 (Some ''llm agents''))"
    by blast
  with first plain show ?thesis by simp
qed

text \<open>
  Claim C2 as stated fails on the payload: a text with a \<^verbatim>\<open><DEEP>\<close> marker, a deep-cued search
  marker and a plain search marker yields the payload of the \<^verbatim>\<open><DEEP>\<close> marker, not the
  remainder of the deep-cued payload.
\<close>

theorem deep_marker_payload_counterexample:
  "''<DEEP>llm agents</DEEP> <SEARCH>deep quantum computing</SEARCH> <SEARCH>weather in Paris</SEARCH>''
     = ''<DEEP>llm agents</DEEP> '' @ ''<SEARCH>deep'' @ '' '' @ ''quantum computing''
         @ ''</SEARCH>'' @ '' <SEARCH>weather in Paris</SEARCH>''
   \<and> tag_detection ''compare them''
        ''<DEEP>llm agents</DEEP> <SEARCH>deep quantum computing</SEARCH> <SEARCH>weather in Paris</SEARCH>''
     = Some (DEEP_SEARCH, ''llm agents'')
   \<and> ''llm agents'' \<noteq> ''quantum computing''"
  by code_simp

text \<open>
  Claim C3 (as amended). An executor throws exactly the first failure of its backend calls;
  the IMAGE executor throws nothing. For a turn that has been routed and has its memory
  context: when the executor of the first iteration throws, or SIMPLE asks for a re-route
  and the re-routed executor throws, \<^verbatim>\<open>runAutonomousAgent\<close> returns the one message of the
  \<^verbatim>\<open>catch\<close> block, whose text is \<^verbatim>\<open>An error occurred: \<close> followed by the user-facing text
  of that failure and is built from the failure alone; the throwing executor is the last
  one entered, so the action is not retried. An iteration that returns a message ends the
  turn with that message. A failed image generation is caught inside the IMAGE executor:
  the iteration returns a message without image whose text is the accumulated text
  followed by the note \<^verbatim>\<open>(Image generation failed: ...)\<close>; a successful one returns the
  accumulated text unchanged, with the image.
\<close>

theorem executor_failure_policy:
  assumes "route E (prompt inp) (file_count inp) = Inr r"
      and "getContext E = Inr memoryContext"
  shows
    "(\<forall>st e. (fst (iteration E inp st) = Throw e) = (backend_failure E inp st = Some e))
     \<and> (\<forall>e st1. iteration E inp (initial_state inp r) = (Throw e, st1) \<longrightarrow>
            runAutonomousAgent E inp = [error_message E inp e]
            \<and> snd (agent_body E inp) = [route_action r])
     \<and> (\<forall>st1 e st2. iteration E inp (initial_state inp r) = (Continue, st1)
                      \<and> iteration E inp st1 = (Throw e, st2) \<longrightarrow>
            runAutonomousAgent E inp = [error_message E inp e]
            \<and> snd (agent_body E inp) = [SIMPLE, currentAction st1])
     \<and> (\<forall>e. msg_text (error_message E inp e) = ''An error occurred: '' @ getUserFriendlyError E e)
     \<and> (\<forall>m st1. iteration E inp (initial_state inp r) = (Return m, st1) \<longrightarrow>
            runAutonomousAgent E inp = [m])
     \<and> (\<forall>st1 m st2. iteration E inp (initial_state inp r) = (Continue, st1)
                      \<and> iteration E inp st1 = (Return m, st2) \<longrightarrow>
            runAutonomousAgent E inp = [m])
     \<and> (\<forall>st err. currentAction st = IMAGE \<and> generateImage E (image_prompt st) = Inl err \<longrightarrow>
            fst (iteration E inp st) = Return (result_message inp (snd (iteration E inp st)))
            \<and> msg_text (result_message inp (snd (iteration E inp st)))
                = finalResponseText st @ image_failure_note err
            \<and> image_base64 (result_message inp (snd (iteration E inp st))) = None)
     \<and> (\<forall>st b. currentAction st = IMAGE \<and> generateImage E (image_prompt st) = Inr b \<longrightarrow>
            fst (iteration E inp st)
              = Return ((result_message inp (snd (iteration E inp st)))
                          \<lparr>image_base64 := Some b, imageStatus := Some ''complete''\<rparr>)
            \<and> msg_text (result_message inp (snd (iteration E inp st))) = finalResponseText st)"
proof -
  let ?init = "initial_state inp r"
  have body: "agent_body E inp = (fst (routing_loop E inp 0 ?init),
                                  executed (snd (routing_loop E inp 0 ?init)))"
    using assms by (rule agent_body_loop)
  have zero: "0 < MAX_LOOPS" and one: "0 + 1 < MAX_LOOPS"
    by (simp_all add: MAX_LOOPS_def)
  have c1: "\<forall>st e. (fst (iteration E inp st) = Throw e) = (backend_failure E inp st = Some e)"
    by (simp add: iteration_throws)
  have c2: "\<forall>e st1. iteration E inp ?init = (Throw e, st1) \<longrightarrow>
              runAutonomousAgent E inp = [error_message E inp e]
              \<and> snd (agent_body E inp) = [route_action r]"
  proof (intro allI impI)
    fix e st1
    assume it: "iteration E inp ?init = (Throw e, st1)"
    from zero it have loop: "routing_loop E inp 0 ?init = (Inl e, st1)"
      by (simp add: routing_loop_Throw)
    from it have "executed st1 = executed ?init @ [currentAction ?init]"
      by (rule iteration_ok(2))
    with body loop show "runAutonomousAgent E inp = [error_message E inp e]
                         \<and> snd (agent_body E inp) = [route_action r]"
      by (simp add: runAutonomousAgent_def)
  qed
  have c3: "\<forall>st1 e st2. iteration E inp ?init = (Continue, st1)
                         \<and> iteration E inp st1 = (Throw e, st2) \<longrightarrow>
              runAutonomousAgent E inp = [error_message E inp e]
              \<and> snd (agent_body E inp) = [SIMPLE, currentAction st1]"
  proof (intro allI impI)
    fix st1 e st2
    assume h: "iteration E inp ?init = (Continue, st1) \<and> iteration E inp st1 = (Throw e, st2)"
    then have it1: "iteration E inp ?init = (Continue, st1)"
      and it2: "iteration E inp st1 = (Throw e, st2)"
      by simp_all
    from one it1 it2 have loop: "routing_loop E inp 0 ?init = (Inl e, st2)"
      by (rule routing_loop_second_Throw)
    from it1 have a1: "currentAction ?init = SIMPLE"
      by (rule iteration_Continue(1))
    from it1 have e1: "executed st1 = executed ?init @ [currentAction ?init]"
      by (rule iteration_ok(2))
    from it2 have e2: "executed st2 = executed st1 @ [currentAction st1]"
      by (rule iteration_ok(2))
    from body loop a1 e1 e2 show "runAutonomousAgent E inp = [error_message E inp e]
                                  \<and> snd (agent_body E inp) = [SIMPLE, currentAction st1]"
      by (simp add: runAutonomousAgent_def)
  qed
  have c4: "\<forall>e. msg_text (error_message E inp e) = ''An error occurred: '' @ getUserFriendlyError E e"
    by (simp add: error_message_def)
  have c5: "\<forall>m st1. iteration E inp ?init = (Return m, st1) \<longrightarrow> runAutonomousAgent E inp = [m]"
  proof (intro allI impI)
    fix m st1
    assume it: "iteration E inp ?init = (Return m, st1)"
    from zero it have "routing_loop E inp 0 ?init = (Inr m, st1)"
      by (simp add: routing_loop_Return)
    with body show "runAutonomousAgent E inp = [m]"
      by (simp add: runAutonomousAgent_def)
  qed
  have c6: "\<forall>st1 m st2. iteration E inp ?init = (Continue, st1)
                         \<and> iteration E inp st1 = (Return m, st2) \<longrightarrow>
              runAutonomousAgent E inp = [m]"
  proof (intro allI impI)
    fix st1 m st2
    assume h: "iteration E inp ?init = (Continue, st1) \<and> iteration E inp st1 = (Return m, st2)"
    then have it1: "iteration E inp ?init = (Continue, st1)"
      and it2: "iteration E inp st1 = (Return m, st2)"
      by simp_all
    from one it1 it2 have "routing_loop E inp 0 ?init = (Inr m, st2)"
      by (rule routing_loop_second_Return)
    with body show "runAutonomousAgent E inp = [m]"
      by (simp add: runAutonomousAgent_def)
  qed
  have c7: "\<forall>st err. currentAction st = IMAGE \<and> generateImage E (image_prompt st) = Inl err \<longrightarrow>
              fst (iteration E inp st) = Return (result_message inp (snd (iteration E inp st)))
              \<and> msg_text (result_message inp (snd (iteration E inp st)))
                  = finalResponseText st @ image_failure_note err
              \<and> image_base64 (result_message inp (snd (iteration E inp st))) = None"
  proof (intro allI impI)
    fix st err
    assume h: "currentAction st = IMAGE \<and> generateImage E (image_prompt st) = Inl err"
    let ?st = "st\<lparr>executed := executed st @ [currentAction st]\<rparr>"
    from h have "generateImage E (image_prompt ?st) = Inl err"
      by (simp add: image_prompt_executed)
    then obtain st' where ex: "exec_IMAGE E inp ?st = (Return (result_message inp st'), st')"
      and tx: "finalResponseText st' = finalResponseText ?st @ image_failure_note err"
      using exec_IMAGE_failure by blast
    from h ex have "iteration E inp st = (Return (result_message inp st'), st')"
      by (simp add: iteration_def execute_def)
    with tx show "fst (iteration E inp st) = Return (result_message inp (snd (iteration E inp st)))
              \<and> msg_text (result_message inp (snd (iteration E inp st)))
                  = finalResponseText st @ image_failure_note err
              \<and> image_base64 (result_message inp (snd (iteration E inp st))) = None"
      by (simp add: result_message_def)
  qed
  have c8: "\<forall>st b. currentAction st = IMAGE \<and> generateImage E (image_prompt st) = Inr b \<longrightarrow>
              fst (iteration E inp st)
                = Return ((result_message inp (snd (iteration E inp st)))
                            \<lparr>image_base64 := Some b, imageStatus := Some ''complete''\<rparr>)
              \<and> msg_text (result_message inp (snd (iteration E inp st))) = finalResponseText st"
  proof (intro allI impI)
    fix st b
    assume h: "currentAction st = IMAGE \<and> generateImage E (image_prompt st) = Inr b"
    let ?st = "st\<lparr>executed := executed st @ [currentAction st]\<rparr>"
    from h have "generateImage E (image_prompt ?st) = Inr b"
      by (simp add: image_prompt_executed)
    then obtain st' where ex: "exec_IMAGE E inp ?st
        = (Return ((result_message inp st')
                     \<lparr>image_base64 := Some b, imageStatus := Some ''complete''\<rparr>), st')"
      and tx: "finalResponseText st' = finalResponseText ?st"
      using exec_IMAGE_success by blast
    from h ex have "iteration E inp st
        = (Return ((result_message inp st')
                     \<lparr>image_base64 := Some b, imageStatus := Some ''complete''\<rparr>), st')"
      by (simp add: iteration_def execute_def)
    with tx show "fst (iteration E inp st)
                = Return ((result_message inp (snd (iteration E inp st)))
                            \<lparr>image_base64 := Some b, imageStatus := Some ''complete''\<rparr>)
              \<and> msg_text (result_message inp (snd (iteration E inp st))) = finalResponseText st"
      by (simp add: result_message_def)
  qed
  from c1 c2 c3 c4 c5 c6 c7 c8 show ?thesis
    by (intro conjI)
qed

text \<open>
  Three turns. The France turn: SIMPLE asks for a web search, the search request fails
  with \<open>quota exceeded\<close>, and the turn ends with the message of the \<^verbatim>\<open>catch\<close> block after
  SIMPLE and SEARCH were entered once each. A turn routed to SEARCH at once, with the same
  failure. The cat turn when the image is refused: the turn ends with the text of SIMPLE
  followed by the failure note.
\<close>

theorem executor_failure_policy_witness:
  "route france_env (prompt france_input) (file_count france_input)
     = Inr \<lparr>route_action = SIMPLE, parameters_prompt = None\<rparr>
   \<and> getContext france_env = Inr ''{}''
   \<and> fst (iteration france_env france_input france_start) = Continue
   \<and> backend_failure france_env france_input
        (snd (iteration france_env france_input france_start)) = Some (JsError ''quota exceeded'')
   \<and> fst (iteration france_env france_input
            (snd (iteration france_env france_input france_start)))
       = Throw (JsError ''quota exceeded'')
   \<and> runAutonomousAgent france_env france_input
       = [error_message france_env france_input (JsError ''quota exceeded'')]
   \<and> msg_text (error_message france_env france_input (JsError ''quota exceeded''))
       = ''An error occurred: quota exceeded''
   \<and> snd (agent_body france_env france_input) = [SIMPLE, SEARCH]
   \<and> fst (iteration search_routed_env france_input
            (initial_state france_input \<lparr>route_action = SEARCH, parameters_prompt = None\<rparr>))
       = Throw (JsError ''quota exceeded'')
   \<and> runAutonomousAgent search_routed_env france_input
       = [error_message search_routed_env france_input (JsError ''quota exceeded'')]
   \<and> snd (agent_body search_routed_env france_input) = [SEARCH]
   \<and> currentAction (snd (iteration cat_refused_env cat_input cat_start)) = IMAGE
   \<and> generateImage cat_refused_env
        (image_prompt (snd (iteration cat_refused_env cat_input cat_start)))
       = Inl (JsError ''blocked by safety filter'')
   \<and> map msg_text (runAutonomousAgent cat_refused_env cat_input)
       = [''I'll generate that image! <IMAGE>a cute cat</IMAGE>'' @ nl @ nl
            @ ''(Image generation failed: blocked by safety filter)'']
   \<and> map image_base64 (runAutonomousAgent cat_refused_env cat_input) = [None]"
proof -
  let ?r = "\<lparr>route_action = SIMPLE, parameters_prompt = None\<rparr>"
  let ?fa = "snd (iteration france_env france_input france_start)"
  let ?fb = "snd (iteration france_env france_input ?fa)"
  let ?quota = "JsError ''quota exceeded''"
  have f_route: "route france_env (prompt france_input) (file_count france_input) = Inr ?r"
    by code_simp
  have f_context: "getContext france_env = Inr ''{}''"
    by code_simp
  have f_asks: "fst (iteration france_env france_input france_start) = Continue"
    by code_simp
  then have f_first: "iteration france_env france_input (initial_state france_input ?r)
                        = (Continue, ?fa)"
    by (simp add: prod_eq_iff france_start_def)
  have f_fail: "backend_failure france_env france_input ?fa = Some ?quota"
    by code_simp
  have f_action: "currentAction ?fa = SEARCH"
    by code_simp
  have f_friendly: "getUserFriendlyError france_env ?quota = ''quota exceeded''"
    by code_simp
  note france = executor_failure_policy [OF f_route f_context]
  from france f_fail have f_throw: "fst (iteration france_env france_input ?fa) = Throw ?quota"
    by blast
  then have f_second: "iteration france_env france_input ?fa = (Throw ?quota, ?fb)"
    by (simp add: prod_eq_iff)
  from france f_first f_second
  have f_turn: "runAutonomousAgent france_env france_input
                  = [error_message france_env france_input ?quota]
                \<and> snd (agent_body france_env france_input) = [SIMPLE, currentAction ?fa]"
    by blast
  from france have f_text: "msg_text (error_message france_env france_input ?quota)
                              = ''An error occurred: '' @ getUserFriendlyError france_env ?quota"
    by blast
  let ?sr = "\<lparr>route_action = SEARCH, parameters_prompt = None\<rparr>"
  let ?start = "initial_state france_input ?sr"
  have s_route: "route search_routed_env (prompt france_input) (file_count france_input) = Inr ?sr"
    by code_simp
  have s_context: "getContext search_routed_env = Inr ''{}''"
    by code_simp
  have s_fail: "backend_failure search_routed_env france_input ?start = Some ?quota"
    by code_simp
  note routed = executor_failure_policy [OF s_route s_context]
  from routed s_fail have s_throw: "fst (iteration search_routed_env france_input ?start) = Throw ?quota"
    by blast
  then have s_first: "iteration search_routed_env france_input ?start
                        = (Throw ?quota, snd (iteration search_routed_env france_input ?start))"
    by (simp add: prod_eq_iff)
  from routed s_first
  have s_turn: "runAutonomousAgent search_routed_env france_input
                  = [error_message search_routed_env france_input ?quota]
                \<and> snd (agent_body search_routed_env france_input) = [route_action ?sr]"
    by blast
  let ?ca = "snd (iteration cat_refused_env cat_input cat_start)"
  let ?cb = "snd (iteration cat_refused_env cat_input ?ca)"
  let ?blocked = "JsError ''blocked by safety filter''"
  have c_route: "route cat_refused_env (prompt cat_input) (file_count cat_input) = Inr ?r"
    by code_simp
  have c_context: "getContext cat_refused_env = Inr ''{}''"
    by code_simp
  have "fst (iteration cat_refused_env cat_input cat_start) = Continue"
    by code_simp
  then have c_first: "iteration cat_refused_env cat_input (initial_state cat_input ?r)
                        = (Continue, ?ca)"
    by (simp add: prod_eq_iff cat_start_def)
  have c_action: "currentAction ?ca = IMAGE"
    by code_simp
  have c_refused: "generateImage cat_refused_env (image_prompt ?ca) = Inl ?blocked"
    by code_simp
  have c_before: "finalResponseText ?ca = ''I'll generate that image! <IMAGE>a cute cat</IMAGE>''"
    by code_simp
  have c_note: "image_failure_note ?blocked
                  = nl @ nl @ ''(Image generation failed: blocked by safety filter)''"
    by (simp add: image_failure_note_def)
  note cat = executor_failure_policy [OF c_route c_context]
  from cat c_action c_refused
  have c_image: "fst (iteration cat_refused_env cat_input ?ca) = Return (result_message cat_input ?cb)
                 \<and> msg_text (result_message cat_input ?cb)
                     = finalResponseText ?ca @ image_failure_note ?blocked
                 \<and> image_base64 (result_message cat_input ?cb) = None"
    by blast
  then have c_second: "iteration cat_refused_env cat_input ?ca
                         = (Return (result_message cat_input ?cb), ?cb)"
    by (simp add: prod_eq_iff)
  from cat c_first c_second
  have c_turn: "runAutonomousAgent cat_refused_env cat_input = [result_message cat_input ?cb]"
    by blast
  from c_turn c_image c_before c_note
  have c_result: "map msg_text (runAutonomousAgent cat_refused_env cat_input)
                    = [''I'll generate that image! <IMAGE>a cute cat</IMAGE>'' @ nl @ nl
                         @ ''(Image generation failed: blocked by safety filter)'']
                  \<and> map image_base64 (runAutonomousAgent cat_refused_env cat_input) = [None]"
    by simp
  from f_route f_context f_asks f_fail f_throw f_turn f_text f_friendly f_action
       s_throw s_turn c_action c_refused c_result
  show ?thesis
    by simp
qed

text \<open>
  Claim C3 as stated fails: in the France turn the text accumulated when the SEARCH executor
  throws is the streamed answer of SIMPLE, and the text of the result is the error message
  alone; the accumulated text is not a prefix of it.
\<close>

theorem error_text_not_appended_counterexample:
  "fst (routing_loop france_env france_input 0 france_start) = Inl (JsError ''quota exceeded'')
   \<and> finalResponseText (snd (routing_loop france_env france_input 0 france_start))
       = ''Let me check that for you. <SEARCH>capital of france</SEARCH>''
   \<and> map msg_text (runAutonomousAgent france_env france_input)
       = [''An error occurred: quota exceeded'']
   \<and> \<not> prefix ''Let me check that for you. <SEARCH>capital of france</SEARCH>''
               ''An error occurred: quota exceeded''"
  by code_simp

text \<open>
  Claim C4 (as amended). While the latch \<open>isSendingRef\<close> is held, a call of
  \<^verbatim>\<open>handleSendMessage\<close> returns the empty result at once and changes nothing. A call that
  passes the guards takes the latch before its first suspension point, so a second call
  made while the latch is held is rejected. When reading the attached files fails, the
  call clears the latch at once, and no message has been inserted or saved. When no timer
  of an earlier call is pending, the call ends with exactly one timer of 500 ms pending,
  whose callback clears the latch; if the attached files were read (or there are none),
  the latch is still held when the call has settled, after all persistence calls of the
  turn, stays held for the next 500 ms and is clear after them.
\<close>

theorem single_flight_latch:
  "(isSendingRef st \<longrightarrow> handleSendMessage E ctx txt fs chatToUse st = (empty_result, st))
   \<and> (\<forall>st1. acquire ctx txt fs chatToUse st = Some st1 \<longrightarrow>
          isSendingRef st1
          \<and> (\<forall>E2 ctx2 txt2 fs2 chat2.
                 handleSendMessage E2 ctx2 txt2 fs2 chat2 st1 = (empty_result, st1))
          \<and> (reading_fails E fs \<longrightarrow>
                 \<not> isSendingRef (snd (handleSendMessage E ctx txt fs chatToUse st))
                 \<and> messages (snd (handleSendMessage E ctx txt fs chatToUse st)) = messages st)
          \<and> (release_timers st = [] \<longrightarrow>
                 release_timers (snd (handleSendMessage E ctx txt fs chatToUse st)) = [500]
                 \<and> isSendingRef (snd (handleSendMessage E ctx txt fs chatToUse st))
                       = (\<not> reading_fails E fs)
                 \<and> (\<not> reading_fails E fs \<longrightarrow>
                        (\<forall>d < 500. isSendingRef
                                     (elapse d (snd (handleSendMessage E ctx txt fs chatToUse st))))
                        \<and> \<not> isSendingRef
                              (elapse 500 (snd (handleSendMessage E ctx txt fs chatToUse st))))))"
proof (intro conjI allI impI)
  assume "isSendingRef st"
  then show "handleSendMessage E ctx txt fs chatToUse st = (empty_result, st)"
    by (rule handleSendMessage_rejected)
next
  fix st1 assume a: "acquire ctx txt fs chatToUse st = Some st1"
  from acquire_Some [OF a] show held: "isSendingRef st1" by simp
  from handleSendMessage_accepted [OF a, of E] obtain u c
    where run: "handleSendMessage E ctx txt fs chatToUse st
                  = (fst (send_try E u c txt fs st1),
                     send_finally (elapse (duration E) (snd (send_try E u c txt fs st1))))"
    by blast
  {
    fix E2 ctx2 txt2 fs2 chat2
    from held show "handleSendMessage E2 ctx2 txt2 fs2 chat2 st1 = (empty_result, st1)"
      by (rule handleSendMessage_rejected)
  }
  {
    assume f: "reading_fails E fs"
    then show "\<not> isSendingRef (snd (handleSendMessage E ctx txt fs chatToUse st))"
      by (simp add: run send_try_latch)
    from f show "messages (snd (handleSendMessage E ctx txt fs chatToUse st)) = messages st"
      using acquire_Some [OF a] by (simp add: run send_try_reading_fails)
  }
  {
    assume e: "release_timers st = []"
    with acquire_Some [OF a] have e1: "release_timers st1 = []" by simp
    show t: "release_timers (snd (handleSendMessage E ctx txt fs chatToUse st)) = [500]"
      using e1 by (simp add: run send_try_latch)
    show latch: "isSendingRef (snd (handleSendMessage E ctx txt fs chatToUse st))
                   = (\<not> reading_fails E fs)"
      using held e1 by (simp add: run send_try_latch)
    assume r: "\<not> reading_fails E fs"
    from r latch t
    show "\<not> isSendingRef (elapse 500 (snd (handleSendMessage E ctx txt fs chatToUse st)))"
      by simp
    fix d :: nat assume "d < 500"
    with r latch t
    show "isSendingRef (elapse d (snd (handleSendMessage E ctx txt fs chatToUse st)))"
      by simp
  }
qed

text \<open>
  A call on the busy hook; a send that succeeds from the idle hook; a send whose attached
  file cannot be read.
\<close>

theorem single_flight_latch_witness:
  "handleSendMessage paris_env signed_in ''again'' None (Some chat_a) busy_hook
     = (empty_result, busy_hook)
   \<and> acquire signed_in ''What's the capital of France?'' None (Some chat_a) idle_hook = Some busy_hook
   \<and> release_timers (snd (handleSendMessage paris_env signed_in ''What's the capital of France?''
                             None (Some chat_a) idle_hook)) = [500]
   \<and> isSendingRef (snd (handleSendMessage paris_env signed_in ''What's the capital of France?''
                           None (Some chat_a) idle_hook))
   \<and> isSendingRef (elapse 499 (snd (handleSendMessage paris_env signed_in
                           ''What's the capital of France?'' None (Some chat_a) idle_hook)))
   \<and> \<not> isSendingRef (elapse 500 (snd (handleSendMessage paris_env signed_in
                           ''What's the capital of France?'' None (Some chat_a) idle_hook)))
   \<and> acquire signed_in ''look at this'' (Some [''photo.png'']) (Some chat_a) idle_hook = Some busy_hook
   \<and> reading_fails unreadable_file_env (Some [''photo.png''])
   \<and> \<not> isSendingRef (snd (handleSendMessage unreadable_file_env signed_in ''look at this''
                             (Some [''photo.png'']) (Some chat_a) idle_hook))
   \<and> messages (snd (handleSendMessage unreadable_file_env signed_in ''look at this''
                       (Some [''photo.png'']) (Some chat_a) idle_hook)) = messages idle_hook"
proof -
  have held: "isSendingRef busy_hook"
    by code_simp
  have taken: "acquire signed_in ''What's the capital of France?'' None (Some chat_a) idle_hook
                 = Some busy_hook"
    by code_simp
  have reads: "\<not> reading_fails paris_env None"
    by code_simp
  have fresh: "release_timers idle_hook = []"
    by code_simp
  have taken': "acquire signed_in ''look at this'' (Some [''photo.png'']) (Some chat_a) idle_hook
                  = Some busy_hook"
    by code_simp
  have fails: "reading_fails unreadable_file_env (Some [''photo.png''])"
    by code_simp
  have near: "(499::nat) < 500"
    by simp
  note busy = single_flight_latch [of busy_hook paris_env signed_in "''again''" None "Some chat_a"]
  note good = single_flight_latch [of idle_hook paris_env signed_in
                "''What's the capital of France?''" None "Some chat_a"]
  note bad = single_flight_latch [of idle_hook unreadable_file_env signed_in
                "''look at this''" "Some [''photo.png'']" "Some chat_a"]
  from busy held have 1: "handleSendMessage paris_env signed_in ''again'' None (Some chat_a) busy_hook
     = (empty_result, busy_hook)"
    by blast
  from good taken reads fresh near have 2:
    "release_timers (snd (handleSendMessage paris_env signed_in ''What's the capital of France?''
                             None (Some chat_a) idle_hook)) = [500]
     \<and> isSendingRef (snd (handleSendMessage paris_env signed_in ''What's the capital of France?''
                           None (Some chat_a) idle_hook))
     \<and> isSendingRef (elapse 499 (snd (handleSendMessage paris_env signed_in
                           ''What's the capital of France?'' None (Some chat_a) idle_hook)))
     \<and> \<not> isSendingRef (elapse 500 (snd (handleSendMessage paris_env signed_in
                           ''What's the capital of France?'' None (Some chat_a) idle_hook)))"
    by blast
  from bad taken' fails have 3:
    "\<not> isSendingRef (snd (handleSendMessage unreadable_file_env signed_in ''look at this''
                             (Some [''photo.png'']) (Some chat_a) idle_hook))
     \<and> messages (snd (handleSendMessage unreadable_file_env signed_in ''look at this''
                       (Some [''photo.png'']) (Some chat_a) idle_hook)) = messages idle_hook"
    by blast
  from 1 2 3 taken taken' fails show ?thesis
    by blast
qed

text \<open>
  Claim C4 as stated fails: after a send whose attached file cannot be read, the latch is
  clear as soon as the call has returned, although nothing was inserted or saved, and a
  submission that follows without any delay is executed.
\<close>

theorem early_release_counterexample:
  "\<not> isSendingRef (snd (handleSendMessage unreadable_file_env signed_in ''look at this''
                          (Some [''photo.png'']) (Some chat_a) idle_hook))
   \<and> messages (snd (handleSendMessage unreadable_file_env signed_in ''look at this''
                       (Some [''photo.png'']) (Some chat_a) idle_hook)) = []
   \<and> result_messages
        (fst (handleSendMessage paris_env signed_in ''What's the capital of France?'' None (Some chat_a)
               (snd (handleSendMessage unreadable_file_env signed_in ''look at this''
                       (Some [''photo.png'']) (Some chat_a) idle_hook))))
       = [plain_content ''chat-1'' Ai ''Paris.'']"
  by code_simp

text \<open>
  Not part of the claim as amended: the timer started by the \<^verbatim>\<open>finally\<close> block of such a
  failed send is still pending afterwards. It clears the latch of a send that follows
  within 500 ms while that send is in flight, so a third submission is then accepted, and
  the latch of the second send is already clear when it settles.
\<close>

lemma stale_timer_clears_later_latch:
  "release_timers (snd (handleSendMessage unreadable_file_env signed_in ''look at this''
                          (Some [''photo.png'']) (Some chat_a) idle_hook)) = [500]
   \<and> acquire signed_in ''What's the capital of France?'' None (Some chat_a)
         (snd (handleSendMessage unreadable_file_env signed_in ''look at this''
                 (Some [''photo.png'']) (Some chat_a) idle_hook))
       = Some ((snd (handleSendMessage unreadable_file_env signed_in ''look at this''
                       (Some [''photo.png'']) (Some chat_a) idle_hook))\<lparr>isSendingRef := True\<rparr>)
   \<and> \<not> isSendingRef
         (elapse 500
            ((snd (handleSendMessage unreadable_file_env signed_in ''look at this''
                     (Some [''photo.png'']) (Some chat_a) idle_hook))\<lparr>isSendingRef := True\<rparr>))
   \<and> \<not> isSendingRef
         (snd (handleSendMessage paris_env signed_in ''What's the capital of France?'' None
                 (Some chat_a)
                 (snd (handleSendMessage unreadable_file_env signed_in ''look at this''
                         (Some [''photo.png'']) (Some chat_a) idle_hook))))"
  by code_simp

text \<open>
  Claim C5 (as amended). The single-flight latch is one boolean of the hook instance and
  is not keyed on the conversation: whether a call takes the latch or is rejected does not
  depend on the chat it is for. While the latch is held, as it is right after a send on
  one chat has taken it, a send on any chat, the same or another one and whatever else it
  is called with, is rejected with the empty result and no change of state. While the
  latch is clear, a send that has the input it needs takes the latch, whatever its chat.
\<close>

theorem latch_ignores_conversation:
  "acquire ctx txt fs (Some c) st = acquire ctx txt fs (Some c') st
   \<and> (isSendingRef st \<longrightarrow> handleSendMessage E ctx' txt' fs' (Some c') st = (empty_result, st))
   \<and> (\<forall>st1. acquire ctx txt fs (Some c) st = Some st1 \<longrightarrow>
          isSendingRef st1
          \<and> handleSendMessage E ctx' txt' fs' (Some c') st1 = (empty_result, st1))
   \<and> (\<not> isSendingRef st \<and> has_required_input ctx txt fs (Some c') \<longrightarrow>
          acquire ctx txt fs (Some c') st = Some (st\<lparr>isSendingRef := True\<rparr>))"
proof (intro conjI allI impI)
  show "acquire ctx txt fs (Some c) st = acquire ctx txt fs (Some c') st"
    by (simp add: acquire_def has_required_input_def)
next
  assume "isSendingRef st"
  then show "handleSendMessage E ctx' txt' fs' (Some c') st = (empty_result, st)"
    by (rule handleSendMessage_rejected)
next
  fix st1
  assume "acquire ctx txt fs (Some c) st = Some st1"
  then have "st1 = st\<lparr>isSendingRef := True\<rparr>"
    using acquire_Some by blast
  then show held: "isSendingRef st1"
    by simp
  then show "handleSendMessage E ctx' txt' fs' (Some c') st1 = (empty_result, st1)"
    by (rule handleSendMessage_rejected)
next
  assume "\<not> isSendingRef st \<and> has_required_input ctx txt fs (Some c')"
  then show "acquire ctx txt fs (Some c') st = Some (st\<lparr>isSendingRef := True\<rparr>)"
    by (simp add: acquire_def)
qed

text \<open>
  The send on the first chat takes the latch of the idle hook; in the state it leaves, the
  latch is held and a send on the second chat is rejected; had the send been for the second
  chat, it would have taken the latch just the same.
\<close>

theorem latch_ignores_conversation_witness:
  "\<not> isSendingRef idle_hook
   \<and> has_required_input signed_in ''What's the capital of France?'' None (Some chat_b)
   \<and> acquire signed_in ''What's the capital of France?'' None (Some chat_a) idle_hook = Some busy_hook
   \<and> acquire signed_in ''What's the capital of France?'' None (Some chat_b) idle_hook
       = Some (idle_hook\<lparr>isSendingRef := True\<rparr>)
   \<and> isSendingRef busy_hook
   \<and> handleSendMessage paris_env signed_in ''draw a cute cat'' None (Some chat_b) busy_hook
       = (empty_result, busy_hook)"
proof -
  have clear: "\<not> isSendingRef idle_hook"
    by code_simp
  have input: "has_required_input signed_in ''What's the capital of France?'' None (Some chat_b)"
    by code_simp
  have taken: "acquire signed_in ''What's the capital of France?'' None (Some chat_a) idle_hook
                 = Some busy_hook"
    by code_simp
  note idle = latch_ignores_conversation
    [of signed_in "''What's the capital of France?''" None chat_a idle_hook chat_b
        paris_env signed_in "''draw a cute cat''" None]
  from idle taken
  have held: "isSendingRef busy_hook
              \<and> handleSendMessage paris_env signed_in ''draw a cute cat'' None (Some chat_b) busy_hook
                  = (empty_result, busy_hook)"
    by blast
  from idle clear input
  have other: "acquire signed_in ''What's the capital of France?'' None (Some chat_b) idle_hook
                 = Some (idle_hook\<lparr>isSendingRef := True\<rparr>)"
    by blast
  from clear input taken other held show ?thesis
    by blast
qed

text \<open>
  Claim C5 as stated fails: while a send on the first chat holds the latch, a send on the
  second chat, which has all the input it needs, is rejected.
\<close>

theorem other_conversation_rejected_counterexample:
  "acquire signed_in ''What's the capital of France?'' None (Some chat_a) idle_hook = Some busy_hook
   \<and> chat_ref_id chat_b \<noteq> chat_ref_id chat_a
   \<and> has_required_input signed_in ''draw a cute cat'' None (Some chat_b)
   \<and> handleSendMessage paris_env signed_in ''draw a cute cat'' None (Some chat_b) busy_hook
       = (empty_result, busy_hook)"
  by code_simp

text \<open>
  Claim C6 (as amended). Within one turn the accumulated response text is append-only
  across loop iterations. The text before an iteration is a prefix, not always a strict
  one, of the text after it, whether the iteration returns, asks for a re-route or throws.
  When an iteration asks for a re-route and the loop goes on, the next iteration starts
  from the state that the first one left, text included, and the loop ends in the state
  that the next one leaves: the text after iteration \<open>k\<close> is a prefix of the text after
  iteration \<open>k + 1\<close>. The text at the start of the loop is a prefix of the text at its end,
  and a message that the loop returns carries the text at its end.
\<close>

theorem accumulated_text_append_only:
  "(\<forall>fl st1. iteration E inp st = (fl, st1) \<longrightarrow>
       prefix (finalResponseText st) (finalResponseText st1))
   \<and> (\<forall>st1 fl2 st2. n + 1 < MAX_LOOPS \<and> iteration E inp st = (Continue, st1)
                      \<and> iteration E inp st1 = (fl2, st2) \<longrightarrow>
          snd (routing_loop E inp n st) = st2
          \<and> prefix (finalResponseText st) (finalResponseText st1)
          \<and> prefix (finalResponseText st1) (finalResponseText st2))
   \<and> (\<forall>res st'. routing_loop E inp n st = (res, st') \<longrightarrow>
          prefix (finalResponseText st) (finalResponseText st')
          \<and> (\<forall>m. res = Inr m \<longrightarrow> msg_text m = finalResponseText st'))"
proof (intro conjI allI impI)
  fix fl st1
  assume "iteration E inp st = (fl, st1)"
  then show "prefix (finalResponseText st) (finalResponseText st1)"
    by (rule iteration_ok(1))
next
  fix st1 fl2 st2
  assume h: "n + 1 < MAX_LOOPS \<and> iteration E inp st = (Continue, st1)
             \<and> iteration E inp st1 = (fl2, st2)"
  then have b: "n + 1 < MAX_LOOPS" and it1: "iteration E inp st = (Continue, st1)"
    and it2: "iteration E inp st1 = (fl2, st2)"
    by simp_all
  from it1 have "currentAction st1 \<noteq> SIMPLE"
    by (rule iteration_Continue(2))
  with it2 have nc: "fl2 \<noteq> Continue"
    using iteration_not_Continue by blast
  show "snd (routing_loop E inp n st) = st2"
  proof (cases fl2)
    case (Return m)
    with b it1 it2 show ?thesis by (simp add: routing_loop_second_Return)
  next
    case (Throw e)
    with b it1 it2 show ?thesis by (simp add: routing_loop_second_Throw)
  next
    case Continue
    with nc show ?thesis by simp
  qed
  from it1 show "prefix (finalResponseText st) (finalResponseText st1)"
    by (rule iteration_ok(1))
  from it2 show "prefix (finalResponseText st1) (finalResponseText st2)"
    by (rule iteration_ok(1))
next
  fix res st'
  assume "routing_loop E inp n st = (res, st')"
  then show "prefix (finalResponseText st) (finalResponseText st')"
    using routing_loop_invariant by blast
next
  fix res st' m
  assume "routing_loop E inp n st = (res, st')" and "res = Inr m"
  then show "msg_text m = finalResponseText st'"
    using routing_loop_invariant by blast
qed

text \<open>
  The France turn when the search answers. The first iteration (SIMPLE) appends its text
  and asks for a web search; the second (SEARCH) starts from that text and appends the
  answer; the loop ends with both, and returns them.
\<close>

theorem accumulated_text_append_only_witness:
  "0 + 1 < MAX_LOOPS
   \<and> fst (iteration france_answer_env france_input france_start) = Continue
   \<and> finalResponseText france_start = []
   \<and> finalResponseText (snd (iteration france_answer_env france_input france_start))
       = ''Let me check that for you. <SEARCH>capital of france</SEARCH>''
   \<and> finalResponseText
        (snd (iteration france_answer_env france_input
               (snd (iteration france_answer_env france_input france_start))))
       = ''Let me check that for you. <SEARCH>capital of france</SEARCH>''
           @ ''Paris is the capital of France.''
   \<and> snd (routing_loop france_answer_env france_input 0 france_start)
       = snd (iteration france_answer_env france_input
               (snd (iteration france_answer_env france_input france_start)))
   \<and> prefix (finalResponseText (snd (iteration france_answer_env france_input france_start)))
        (finalResponseText
           (snd (iteration france_answer_env france_input
                  (snd (iteration france_answer_env france_input france_start)))))
   \<and> prefix (finalResponseText (snd (iteration france_answer_env france_input france_start)))
        (finalResponseText (snd (routing_loop france_answer_env france_input 0 france_start)))
   \<and> map msg_text (runAutonomousAgent france_answer_env france_input)
       = [''Let me check that for you. <SEARCH>capital of france</SEARCH>''
            @ ''Paris is the capital of France.'']"
proof -
  let ?E = france_answer_env
  let ?sa = "snd (iteration ?E france_input france_start)"
  let ?sb = "snd (iteration ?E france_input ?sa)"
  have bound: "0 + 1 < MAX_LOOPS"
    by (simp add: MAX_LOOPS_def)
  have asks: "fst (iteration ?E france_input france_start) = Continue"
    by code_simp
  then have first: "iteration ?E france_input france_start = (Continue, ?sa)"
    by (simp add: prod_eq_iff)
  have second: "iteration ?E france_input ?sa = (fst (iteration ?E france_input ?sa), ?sb)"
    by simp
  have t0: "finalResponseText france_start = []"
    by code_simp
  have t1: "finalResponseText ?sa = ''Let me check that for you. <SEARCH>capital of france</SEARCH>''"
    by code_simp
  have t2: "finalResponseText ?sb
              = ''Let me check that for you. <SEARCH>capital of france</SEARCH>''
                  @ ''Paris is the capital of France.''"
    by code_simp
  have turn: "map msg_text (runAutonomousAgent ?E france_input)
                = [''Let me check that for you. <SEARCH>capital of france</SEARCH>''
                     @ ''Paris is the capital of France.'']"
    by code_simp
  from accumulated_text_append_only [of ?E france_input france_start 0] bound first second
  have two: "snd (routing_loop ?E france_input 0 france_start) = ?sb
             \<and> prefix (finalResponseText france_start) (finalResponseText ?sa)
             \<and> prefix (finalResponseText ?sa) (finalResponseText ?sb)"
    by blast
  then have "prefix (finalResponseText ?sa)
               (finalResponseText (snd (routing_loop ?E france_input 0 france_start)))"
    by simp
  with bound asks t0 t1 t2 two turn show ?thesis
    by simp
qed

text \<open>
  Claim C6 as stated fails: in the cat turn the second iteration (IMAGE, which succeeds)
  appends nothing, so the text after the first iteration is not a strict prefix of the
  text after the second.
\<close>

theorem strict_prefix_counterexample:
  "fst (iteration cat_env cat_input cat_start) = Continue
   \<and> finalResponseText (snd (iteration cat_env cat_input cat_start))
       = ''I'll generate that image! <IMAGE>a cute cat</IMAGE>''
   \<and> finalResponseText
        (snd (iteration cat_env cat_input (snd (iteration cat_env cat_input cat_start))))
       = ''I'll generate that image! <IMAGE>a cute cat</IMAGE>''
   \<and> \<not> strict_prefix
          (finalResponseText (snd (iteration cat_env cat_input cat_start)))
          (finalResponseText
             (snd (iteration cat_env cat_input (snd (iteration cat_env cat_input cat_start)))))"
  by code_simp




text \<open>
  Claim C8 (as amended). When a background refetch of the active chat succeeds and that
  chat is still the active one, the resulting view is the fetched history followed by
  exactly those previously held records that belong to this chat and whose id has no
  counterpart in the fetched history; no such pending record of this chat is erased.
\<close>

theorem refetch_merge:
  assumes "supabase ctx" and "activeChat ctx = Some c" and "activeChatIdRef st = Some (chat_ref_id c)"
  shows "messages (fetchMessages ctx (Inr history) st)
           = history @ filter (\<lambda>p. chat_id p = chat_ref_id c \<and> id p \<notin> id ` set history) (messages st)
         \<and> (\<forall>p \<in> set (messages st). chat_id p = chat_ref_id c \<and> id p \<notin> id ` set history
               \<longrightarrow> p \<in> set (messages (fetchMessages ctx (Inr history) st)))"
proof -
  from assms have "messages (fetchMessages ctx (Inr history) st)
                     = merge_history (chat_ref_id c) history (messages st)"
    by (simp add: fetchMessages_def Let_def setMessages_def)
  then show ?thesis by (simp add: merge_history_eq)
qed

theorem refetch_merge_witness:
  "messages (fetchMessages signed_in (Inr [persisted_hello])
              (idle_hook\<lparr>messages := [persisted_hello, pending_question, pending_answer]\<rparr>))
     = [persisted_hello, pending_question, pending_answer]
   \<and> pending_question \<in> set (messages (fetchMessages signed_in (Inr [persisted_hello])
              (idle_hook\<lparr>messages := [persisted_hello, pending_question, pending_answer]\<rparr>)))"
proof -
  let ?st = "idle_hook\<lparr>messages := [persisted_hello, pending_question, pending_answer]\<rparr>"
  have ctx: "supabase signed_in" "activeChat signed_in = Some chat_a"
    by code_simp+
  have ref: "activeChatIdRef ?st = Some (chat_ref_id chat_a)"
    by code_simp
  have held: "pending_question \<in> set (messages ?st)"
    by code_simp
  have pending: "chat_id pending_question = chat_ref_id chat_a
                 \<and> id pending_question \<notin> id ` set [persisted_hello]"
    by code_simp
  have view: "[persisted_hello]
                @ filter (\<lambda>p. chat_id p = chat_ref_id chat_a \<and> id p \<notin> id ` set [persisted_hello])
                    (messages ?st)
              = [persisted_hello, pending_question, pending_answer]"
    by code_simp
  note merge = refetch_merge [OF ctx ref, of "[persisted_hello]"]
  from merge view
  have 1: "messages (fetchMessages signed_in (Inr [persisted_hello]) ?st)
             = [persisted_hello, pending_question, pending_answer]"
    by (simp only:)
  from merge held pending
  have 2: "pending_question \<in> set (messages (fetchMessages signed_in (Inr [persisted_hello]) ?st))"
    by blast
  show ?thesis
    by (rule conjI [OF 1 2])
qed

text \<open>
  Claim C8 as stated fails: a held record of another chat, whose id has no counterpart in
  the fetched history, is not in the resulting view.
\<close>

theorem other_chat_pending_counterexample:
  "pending_elsewhere \<in> set (messages (idle_hook\<lparr>messages := [pending_elsewhere]\<rparr>))
   \<and> id pending_elsewhere \<notin> id ` set [persisted_hello]
   \<and> messages (fetchMessages signed_in (Inr [persisted_hello])
                (idle_hook\<lparr>messages := [pending_elsewhere]\<rparr>))
       = [persisted_hello]
   \<and> [persisted_hello] \<noteq> [persisted_hello] @ [pending_elsewhere]"
  by code_simp

text \<open>
  Claim C9 (as amended). Let the text generated by SIMPLE contain no deep-research and no
  search marker (they are tested before the reasoning marker). If it contains the opening
  tag \<^verbatim>\<open><THINK>\<close> and no closing tag, tag detection yields THINK with the original prompt of
  the turn as payload. If its leftmost reasoning marker is closed, with a payload free of
  line terminators, tag detection yields THINK with the trimmed payload, and with the
  original prompt when the payload is empty.
\<close>

theorem reasoning_marker_payload:
  assumes "deepMatch gen = None" and "searchMatch gen = None"
  shows "(sublist ''<THINK>'' gen \<and> \<not> sublist ''</THINK>'' gen \<longrightarrow>
            tag_detection original gen = Some (THINK, original))
         \<and> (\<forall>pre payload post.
               gen = pre @ ''<THINK>'' @ payload @ ''</THINK>'' @ post
               \<and> list_all (\<lambda>c. \<not> line_terminator c) payload
               \<and> not_starting False ''</THINK>'' payload (''</THINK>'' @ post)
               \<and> no_match_starts False (tag_pattern ''THINK'') pre
                    (''<THINK>'' @ payload @ ''</THINK>'' @ post)
               \<longrightarrow> tag_detection original gen
                     = Some (THINK, if payload \<noteq> [] then trim payload else original))"
proof (intro conjI allI impI)
  assume h: "sublist ''<THINK>'' gen \<and> \<not> sublist ''</THINK>'' gen"
  have "regexp_match False (tag_pattern ''THINK'') gen = None"
  proof (cases "regexp_match False (tag_pattern ''THINK'') gen")
    case (Some g)
    from tag_pattern_needs_close [OF this] h show ?thesis by simp
  qed simp
  moreover from h have "regexp_match False [Lit ''<THINK>''] gen = Some None"
    by (simp add: literal_occurs)
  ultimately have "thinkMatch gen = Some None"
    by (simp add: thinkMatch_def or_else_def)
  with assms show "tag_detection original gen = Some (THINK, original)"
    by (simp add: tag_detection_def)
next
  fix pre payload post
  assume h: "gen = pre @ ''<THINK>'' @ payload @ ''</THINK>'' @ post
               \<and> list_all (\<lambda>c. \<not> line_terminator c) payload
               \<and> not_starting False ''</THINK>'' payload (''</THINK>'' @ post)
               \<and> no_match_starts False (tag_pattern ''THINK'') pre
                    (''<THINK>'' @ payload @ ''</THINK>'' @ post)"
  then have "regexp_match False (tag_pattern ''THINK'') gen = Some (Some payload)"
    using tag_marker_exact [of payload "''THINK''" post pre] by simp
  then have "thinkMatch gen = Some (Some payload)"
    by (simp add: thinkMatch_def or_else_def)
  with assms show "tag_detection original gen
                     = Some (THINK, if payload \<noteq> [] then trim payload else original)"
    by (simp add: tag_detection_def)
qed

text \<open>Two texts: an unterminated reasoning marker, and a closed one with a payload.\<close>

theorem reasoning_marker_payload_witness:
  "tag_detection ''Is 91 prime?'' ''Hmm, tricky one. <THINK>'' = Some (THINK, ''Is 91 prime?'')
   \<and> tag_detection ''Is 91 prime?'' ''Sure. <THINK>  factor 91 </THINK> One moment.''
       = Some (THINK, ''factor 91'')"
proof -
  let ?g1 = "''Hmm, tricky one. <THINK>''"
  let ?g2 = "''Sure. <THINK>  factor 91 </THINK> One moment.''"
  have d1: "deepMatch ?g1 = None" and s1: "searchMatch ?g1 = None"
    by code_simp+
  have open1: "sublist ''<THINK>'' ?g1 \<and> \<not> sublist ''</THINK>'' ?g1"
    by code_simp
  have d2: "deepMatch ?g2 = None" and s2: "searchMatch ?g2 = None"
    by code_simp+
  have closed2: "?g2 = ''Sure. '' @ ''<THINK>'' @ ''  factor 91 '' @ ''</THINK>'' @ '' One moment.''
      \<and> list_all (\<lambda>c. \<not> line_terminator c) ''  factor 91 ''
      \<and> not_starting False ''</THINK>'' ''  factor 91 '' (''</THINK>'' @ '' One moment.'')
      \<and> no_match_starts False (tag_pattern ''THINK'') ''Sure. ''
           (''<THINK>'' @ ''  factor 91 '' @ ''</THINK>'' @ '' One moment.'')"
    by code_simp
  have t: "(if ''  factor 91 '' \<noteq> [] then trim ''  factor 91 '' else ''Is 91 prime?'') = ''factor 91''"
    by code_simp
  from reasoning_marker_payload [OF d1 s1, of "''Is 91 prime?''"] open1
  have r1: "tag_detection ''Is 91 prime?'' ?g1 = Some (THINK, ''Is 91 prime?'')"
    by blast
  from reasoning_marker_payload [OF d2 s2, of "''Is 91 prime?''"] closed2
  have "tag_detection ''Is 91 prime?'' ?g2
          = Some (THINK, if ''  factor 91 '' \<noteq> [] then trim ''  factor 91 '' else ''Is 91 prime?'')"
    by blast
  with t r1 show ?thesis by simp
qed

text \<open>
  Claim C9 as stated fails: a text with an unterminated reasoning marker that also holds a
  search marker yields SEARCH, not THINK.
\<close>

theorem reasoning_marker_counterexample:
  "sublist ''<THINK>'' ''Let me look that up. <SEARCH>is 91 prime</SEARCH> <THINK>''
   \<and> \<not> sublist ''</THINK>'' ''Let me look that up. <SEARCH>is 91 prime</SEARCH> <THINK>''
   \<and> tag_detection ''Is 91 prime?'' ''Let me look that up. <SEARCH>is 91 prime</SEARCH> <THINK>''
       = Some (SEARCH, ''is 91 prime'')
   \<and> Some (SEARCH, ''is 91 prime'') \<noteq> Some (THINK, ''Is 91 prime?'')"
  by code_simp

text \<open>
  Claim C10 (as amended). Take a turn that has been routed and has its memory context, in
  which the first iteration is SIMPLE and asks for a re-route. The accumulated text that
  is handed to the re-routed executor is all that SIMPLE streamed, the tag markup and the
  text around it included: tag detection on it gives the new action and prompt, and it
  contains the opening tag of the marker of that action. The re-routed executor only
  appends to it and does not ask for another re-route. When it returns a message, that
  message is the result of the turn; its text starts with the text of SIMPLE and so
  contains the opening tag (hiding the tags is left to the rendering of the message).
  When it throws, the result of the turn is the message of the \<^verbatim>\<open>catch\<close> block instead,
  whose text is \<^verbatim>\<open>An error occurred: \<close> followed by the user-facing text of the failure and
  is built from the failure alone.
\<close>

theorem tag_markup_kept:
  assumes "route E (prompt inp) (file_count inp) = Inr r"
      and "getContext E = Inr memoryContext"
      and "iteration E inp (initial_state inp r) = (Continue, st1)"
      and "iteration E inp st1 = (fl2, st2)"
  shows
    "finalResponseText st1 = chunk_texts (fst (generateContentStream E SIMPLE (prompt inp)))
     \<and> tag_detection (prompt inp) (finalResponseText st1)
         = Some (currentAction st1, currentPrompt st1)
     \<and> has_marker (currentAction st1) (finalResponseText st1)
     \<and> prefix (finalResponseText st1) (finalResponseText st2)
     \<and> fl2 \<noteq> Continue
     \<and> (\<forall>m. fl2 = Return m \<longrightarrow>
           runAutonomousAgent E inp = [m]
           \<and> prefix (finalResponseText st1) (msg_text m)
           \<and> has_marker (currentAction st1) (msg_text m))
     \<and> (\<forall>e. fl2 = Throw e \<longrightarrow>
           runAutonomousAgent E inp = [error_message E inp e]
           \<and> msg_text (error_message E inp e)
               = ''An error occurred: '' @ getUserFriendlyError E e)"
proof -
  let ?init = "initial_state inp r"
  have body: "agent_body E inp = (fst (routing_loop E inp 0 ?init),
                                  executed (snd (routing_loop E inp 0 ?init)))"
    using assms(1,2) by (rule agent_body_loop)
  have one: "0 + 1 < MAX_LOOPS"
    by (simp add: MAX_LOOPS_def)
  have prompt0: "currentPrompt ?init = prompt inp"
    by (simp add: initial_state_def)
  from iteration_Continue_text [OF assms(3)] prompt0
  have text1: "finalResponseText st1 = chunk_texts (fst (generateContentStream E SIMPLE (prompt inp)))"
    and detect: "tag_detection (prompt inp) (finalResponseText st1)
                   = Some (currentAction st1, currentPrompt st1)"
    by simp_all
  from detect have marker: "has_marker (currentAction st1) (finalResponseText st1)"
    by (rule tag_detection_has_marker)
  from assms(4) have grows: "prefix (finalResponseText st1) (finalResponseText st2)"
    by (rule iteration_ok(1))
  from assms(3) have "currentAction st1 \<noteq> SIMPLE"
    by (rule iteration_Continue(2))
  with assms(4) have stops: "fl2 \<noteq> Continue"
    using iteration_not_Continue by blast
  have returns: "\<forall>m. fl2 = Return m \<longrightarrow>
           runAutonomousAgent E inp = [m]
           \<and> prefix (finalResponseText st1) (msg_text m)
           \<and> has_marker (currentAction st1) (msg_text m)"
  proof (intro allI impI)
    fix m
    assume fl: "fl2 = Return m"
    with assms(4) have it2: "iteration E inp st1 = (Return m, st2)"
      by simp
    from one assms(3) it2 have "routing_loop E inp 0 ?init = (Inr m, st2)"
      by (rule routing_loop_second_Return)
    with body have turn: "runAutonomousAgent E inp = [m]"
      by (simp add: runAutonomousAgent_def)
    from it2 have "msg_text m = finalResponseText st2"
      by (rule iteration_ok(3)) simp
    with grows have p: "prefix (finalResponseText st1) (msg_text m)"
      by simp
    then have "sublist (finalResponseText st1) (msg_text m)"
      by (rule prefix_imp_sublist)
    with marker have "has_marker (currentAction st1) (msg_text m)"
      by (rule has_marker_sublist)
    with turn p show "runAutonomousAgent E inp = [m]
           \<and> prefix (finalResponseText st1) (msg_text m)
           \<and> has_marker (currentAction st1) (msg_text m)"
      by simp
  qed
  have throws: "\<forall>e. fl2 = Throw e \<longrightarrow>
           runAutonomousAgent E inp = [error_message E inp e]
           \<and> msg_text (error_message E inp e)
               = ''An error occurred: '' @ getUserFriendlyError E e"
  proof (intro allI impI)
    fix e
    assume "fl2 = Throw e"
    with assms(4) have it2: "iteration E inp st1 = (Throw e, st2)"
      by simp
    from one assms(3) it2 have "routing_loop E inp 0 ?init = (Inl e, st2)"
      by (rule routing_loop_second_Throw)
    with body show "runAutonomousAgent E inp = [error_message E inp e]
           \<and> msg_text (error_message E inp e)
               = ''An error occurred: '' @ getUserFriendlyError E e"
      by (simp add: runAutonomousAgent_def error_message_def)
  qed
  from text1 detect marker grows stops returns throws show ?thesis
    by (intro conjI)
qed

text \<open>
  Two turns. The cat turn: the answer of SIMPLE with its \<^verbatim>\<open><IMAGE>\<close> marker is handed to
  the IMAGE executor, which returns it as the text of the turn's message. The France turn:
  the answer of SIMPLE with its \<^verbatim>\<open><SEARCH>\<close> marker is handed to the SEARCH executor, which
  throws, and the turn's message is the message of the \<^verbatim>\<open>catch\<close> block.
\<close>

theorem tag_markup_kept_witness:
  "route cat_env (prompt cat_input) (file_count cat_input)
     = Inr \<lparr>route_action = SIMPLE, parameters_prompt = None\<rparr>
   \<and> getContext cat_env = Inr ''{}''
   \<and> fst (iteration cat_env cat_input cat_start) = Continue
   \<and> finalResponseText (snd (iteration cat_env cat_input cat_start))
       = ''I'll generate that image! <IMAGE>a cute cat</IMAGE>''
   \<and> tag_detection (prompt cat_input) ''I'll generate that image! <IMAGE>a cute cat</IMAGE>''
       = Some (IMAGE, ''a cute cat'')
   \<and> has_marker IMAGE ''I'll generate that image! <IMAGE>a cute cat</IMAGE>''
   \<and> map msg_text (runAutonomousAgent cat_env cat_input)
       = [''I'll generate that image! <IMAGE>a cute cat</IMAGE>'']
   \<and> has_marker IMAGE (msg_text (hd (runAutonomousAgent cat_env cat_input)))
   \<and> route france_env (prompt france_input) (file_count france_input)
       = Inr \<lparr>route_action = SIMPLE, parameters_prompt = None\<rparr>
   \<and> getContext france_env = Inr ''{}''
   \<and> fst (iteration france_env france_input france_start) = Continue
   \<and> has_marker SEARCH (finalResponseText (snd (iteration france_env france_input france_start)))
   \<and> fst (iteration france_env france_input
            (snd (iteration france_env france_input france_start)))
       = Throw (JsError ''quota exceeded'')
   \<and> runAutonomousAgent france_env france_input
       = [error_message france_env france_input (JsError ''quota exceeded'')]
   \<and> msg_text (error_message france_env france_input (JsError ''quota exceeded''))
       = ''An error occurred: quota exceeded''"
proof -
  let ?r = "\<lparr>route_action = SIMPLE, parameters_prompt = None\<rparr>"
  let ?ca = "snd (iteration cat_env cat_input cat_start)"
  let ?cb = "snd (iteration cat_env cat_input ?ca)"
  let ?cm = "(result_message cat_input ?cb)\<lparr>image_base64 := Some ''iVBORw0KGgo='',
                                              imageStatus := Some ''complete''\<rparr>"
  let ?quota = "JsError ''quota exceeded''"
  have c_route: "route cat_env (prompt cat_input) (file_count cat_input) = Inr ?r"
    by code_simp
  have c_context: "getContext cat_env = Inr ''{}''"
    by code_simp
  have c_asks: "fst (iteration cat_env cat_input cat_start) = Continue"
    by code_simp
  then have c_first: "iteration cat_env cat_input (initial_state cat_input ?r) = (Continue, ?ca)"
    by (simp add: prod_eq_iff cat_start_def)
  have "fst (iteration cat_env cat_input ?ca) = Return ?cm"
    by code_simp
  then have c_second: "iteration cat_env cat_input ?ca = (Return ?cm, ?cb)"
    by (simp add: prod_eq_iff)
  have c_text: "finalResponseText ?ca = ''I'll generate that image! <IMAGE>a cute cat</IMAGE>''"
    by code_simp
  have c_action: "currentAction ?ca = IMAGE"
    by code_simp
  have c_prompt: "currentPrompt ?ca = ''a cute cat''"
    by code_simp
  have c_message: "msg_text ?cm = finalResponseText ?cb"
    by simp
  have c_end: "finalResponseText ?cb = ''I'll generate that image! <IMAGE>a cute cat</IMAGE>''"
    by code_simp
  note cat = tag_markup_kept [OF c_route c_context c_first c_second]
  from cat
  have "tag_detection (prompt cat_input) (finalResponseText ?ca)
          = Some (currentAction ?ca, currentPrompt ?ca)
        \<and> has_marker (currentAction ?ca) (finalResponseText ?ca)"
    by blast
  then have c_detect: "tag_detection (prompt cat_input)
                    ''I'll generate that image! <IMAGE>a cute cat</IMAGE>''
                  = Some (IMAGE, ''a cute cat'')
                  \<and> has_marker IMAGE ''I'll generate that image! <IMAGE>a cute cat</IMAGE>''"
    by (simp only: c_text c_action c_prompt)
  from cat
  have "runAutonomousAgent cat_env cat_input = [?cm] \<and> has_marker (currentAction ?ca) (msg_text ?cm)"
    by blast
  then have c_turn: "runAutonomousAgent cat_env cat_input = [?cm] \<and> has_marker IMAGE (msg_text ?cm)"
    by (simp only: c_action)
  with c_message c_end
  have c_result: "map msg_text (runAutonomousAgent cat_env cat_input)
                    = [''I'll generate that image! <IMAGE>a cute cat</IMAGE>'']
                  \<and> has_marker IMAGE (msg_text (hd (runAutonomousAgent cat_env cat_input)))"
    by simp
  let ?fa = "snd (iteration france_env france_input france_start)"
  let ?fb = "snd (iteration france_env france_input ?fa)"
  have f_route: "route france_env (prompt france_input) (file_count france_input) = Inr ?r"
    by code_simp
  have f_context: "getContext france_env = Inr ''{}''"
    by code_simp
  have f_asks: "fst (iteration france_env france_input france_start) = Continue"
    by code_simp
  then have f_first: "iteration france_env france_input (initial_state france_input ?r)
                        = (Continue, ?fa)"
    by (simp add: prod_eq_iff france_start_def)
  have f_throws: "fst (iteration france_env france_input ?fa) = Throw ?quota"
    by code_simp
  then have f_second: "iteration france_env france_input ?fa = (Throw ?quota, ?fb)"
    by (simp add: prod_eq_iff)
  have f_action: "currentAction ?fa = SEARCH"
    by code_simp
  have f_friendly: "getUserFriendlyError france_env ?quota = ''quota exceeded''"
    by code_simp
  note france = tag_markup_kept [OF f_route f_context f_first f_second]
  from france
  have "has_marker (currentAction ?fa) (finalResponseText ?fa)
        \<and> runAutonomousAgent france_env france_input
            = [error_message france_env france_input ?quota]
        \<and> msg_text (error_message france_env france_input ?quota)
            = ''An error occurred: '' @ getUserFriendlyError france_env ?quota"
    by blast
  then have f_result: "has_marker SEARCH (finalResponseText ?fa)
                  \<and> runAutonomousAgent france_env france_input
                      = [error_message france_env france_input ?quota]
                  \<and> msg_text (error_message france_env france_input ?quota)
                      = ''An error occurred: quota exceeded''"
    by (simp only: f_action f_friendly append.simps)
  from c_route c_context c_asks c_text c_detect c_result
       f_route f_context f_asks f_throws f_result
  show ?thesis
    by simp
qed

text \<open>
  Claim C10 as stated fails: in the France turn SIMPLE detects the \<^verbatim>\<open><SEARCH>\<close> marker and
  re-routes, the marker stays in the accumulated text, but the SEARCH executor throws and
  the text of the turn's message is the error message, without the marker.
\<close>

theorem tag_markup_counterexample:
  "fst (iteration france_env france_input france_start) = Continue
   \<and> sublist ''<SEARCH>capital of france</SEARCH>''
        (finalResponseText (snd (iteration france_env france_input france_start)))
   \<and> map msg_text (runAutonomousAgent france_env france_input)
       = [''An error occurred: quota exceeded'']
   \<and> \<not> sublist ''<SEARCH>'' ''An error occurred: quota exceeded''"
  by code_simp

end
